theory Spec2Isabelle
  imports Main
begin

section \<open>JavaScript strings\<close>

text \<open>
  A JavaScript string is a sequence of UTF-16 code units; a code unit is modelled by
  its number.  \<open>str\<close> turns an ASCII literal into such a sequence.
\<close>

type_synonym code_unit = nat
type_synonym jsstring = "code_unit list"

definition str :: "string \<Rightarrow> jsstring" where
  "str cs = map of_char cs"

text \<open>\<open>String.prototype.split\<close> with a one code unit separator: the empty string
  gives one empty piece, and a trailing separator gives a trailing empty piece.\<close>

fun split :: "code_unit \<Rightarrow> jsstring \<Rightarrow> jsstring list" where
  "split sep [] = [[]]"
| "split sep (c # cs) =
     (if c = sep then [] # split sep cs
      else (case split sep cs of [] \<Rightarrow> [[c]] | l # ls \<Rightarrow> (c # l) # ls))"

text \<open>The white space and line terminators that \<open>String.prototype.trim\<close> strips.\<close>

definition js_whitespace :: "code_unit \<Rightarrow> bool" where
  "js_whitespace c \<longleftrightarrow>
     c \<in> {9, 10, 11, 12, 13, 32, 160, 5760, 8232, 8233, 8239, 8287, 12288, 65279}
     \<or> (8192 \<le> c \<and> c \<le> 8202)"

definition trim :: "jsstring \<Rightarrow> jsstring" where
  "trim s = rev (dropWhile js_whitespace (rev (dropWhile js_whitespace s)))"

text \<open>Decimal digits of a natural number, as \<open>Number.prototype.toString\<close> prints an
  integer.\<close>

function dec :: "nat \<Rightarrow> jsstring" where
  "dec n = (if n < 10 then [48 + n] else dec (n div 10) @ [48 + n mod 10])"
  by pat_completeness auto
termination
  by (relation "measure id") auto

declare dec.simps [simp del]

section \<open>JSON values and \<open>JSON.parse\<close>\<close>

text \<open>
  A number \<open>JNumber m e\<close> stands for \<open>m * 10 ^ e\<close>, with \<open>m\<close> not divisible by ten
  (zero is \<open>JNumber 0 0\<close>).  It is the decimal as written, where \<open>JSON.parse\<close> rounds to
  a double: the two agree for at most 15 significant digits within the range of a double,
  and differ beyond (\<open>1e-400\<close> is zero in JavaScript, \<open>1e400\<close> is infinite).  An object
  keeps its members in source order; a repeated key is looked up at its last occurrence,
  as \<open>JSON.parse\<close> overwrites.
\<close>

datatype json =
    JNull
  | JBool bool
  | JNumber int int
  | JString jsstring
  | JArray "json list"
  | JObject "(jsstring \<times> json) list"

datatype token =
    TLBrace | TRBrace | TLBracket | TRBracket | TColon | TComma
  | TString jsstring | TNumber int int | TTrue | TFalse | TNull

definition json_ws :: "code_unit \<Rightarrow> bool" where
  "json_ws c \<longleftrightarrow> c = 9 \<or> c = 10 \<or> c = 13 \<or> c = 32"

definition is_digit :: "code_unit \<Rightarrow> bool" where
  "is_digit c \<longleftrightarrow> 48 \<le> c \<and> c \<le> 57"

definition hex_val :: "code_unit \<Rightarrow> nat option" where
  "hex_val c =
     (if 48 \<le> c \<and> c \<le> 57 then Some (c - 48)
      else if 65 \<le> c \<and> c \<le> 70 then Some (c - 55)
      else if 97 \<le> c \<and> c \<le> 102 then Some (c - 87)
      else None)"

definition hex4 :: "jsstring \<Rightarrow> code_unit option" where
  "hex4 s =
     (case map hex_val (take 4 s) of
        [Some a, Some b, Some c, Some d] \<Rightarrow> Some (((a * 16 + b) * 16 + c) * 16 + d)
      | _ \<Rightarrow> None)"

text \<open>The single character escapes of a JSON string: quote, backslash, slash, b, f, n, r, t.\<close>

definition unescape :: "code_unit \<Rightarrow> code_unit option" where
  "unescape c =
     (if c = 34 \<or> c = 92 \<or> c = 47 then Some c
      else if c = 98 then Some 8
      else if c = 102 then Some 12
      else if c = 110 then Some 10
      else if c = 114 then Some 13
      else if c = 116 then Some 9
      else None)"

text \<open>\<open>scan_string acc s\<close> reads a string body up to its closing quote; \<open>acc\<close> holds the
  code units read so far, last first.  The result is the string and the rest of the input.\<close>

function scan_string :: "jsstring \<Rightarrow> jsstring \<Rightarrow> (jsstring \<times> jsstring) option" where
  "scan_string acc [] = None"
| "scan_string acc [c] = (if c = 34 then Some (rev acc, []) else None)"
| "scan_string acc (c # d # cs) =
     (if c = 34 then Some (rev acc, d # cs)
      else if c = 92 then
        (if d = 117 then
           (case hex4 cs of
              None \<Rightarrow> None
            | Some u \<Rightarrow> scan_string (u # acc) (drop 4 cs))
         else
           (case unescape d of
              None \<Rightarrow> None
            | Some u \<Rightarrow> scan_string (u # acc) cs))
      else if c < 32 then None
      else scan_string (c # acc) (d # cs))"
  by pat_completeness auto
termination
  by (relation "measure (\<lambda>(acc, s). length s)") auto

lemma scan_string_shorter:
  "scan_string acc s = Some (r, rest) \<Longrightarrow> length rest < length s"
  by (induction acc s rule: scan_string.induct) (auto split: if_splits option.splits)

text \<open>
  A JSON number: an optional minus, an integer part without a superfluous leading zero,
  an optional fraction, an optional exponent.  The digits of the integer part and the
  fraction form the mantissa; trailing zeros move into the exponent.
\<close>

definition is_numchar :: "code_unit \<Rightarrow> bool" where
  "is_numchar c \<longleftrightarrow> is_digit c \<or> c = 43 \<or> c = 45 \<or> c = 46 \<or> c = 69 \<or> c = 101"

definition digits_val :: "jsstring \<Rightarrow> nat" where
  "digits_val ds = foldl (\<lambda>a c. 10 * a + (c - 48)) 0 ds"

definition number_exponent :: "jsstring \<Rightarrow> int option" where
  "number_exponent s =
     (case s of
        [] \<Rightarrow> Some 0
      | c # r \<Rightarrow>
          if c = 69 \<or> c = 101 then
            (let neg = (r \<noteq> [] \<and> hd r = 45);
                 ds = (if r \<noteq> [] \<and> (hd r = 43 \<or> hd r = 45) then tl r else r)
             in if ds \<noteq> [] \<and> list_all is_digit ds
                then Some (if neg then - int (digits_val ds) else int (digits_val ds))
                else None)
          else None)"

definition parse_number :: "jsstring \<Rightarrow> (int \<times> int) option" where
  "parse_number s =
     (let neg = (s \<noteq> [] \<and> hd s = 45);
          r1 = (if neg then tl s else s);
          ip = takeWhile is_digit r1;
          r2 = dropWhile is_digit r1;
          frac = (r2 \<noteq> [] \<and> hd r2 = 46);
          fp = (if frac then takeWhile is_digit (tl r2) else []);
          r3 = (if frac then dropWhile is_digit (tl r2) else r2)
      in if ip = [] \<or> (hd ip = 48 \<and> ip \<noteq> [48]) \<or> (frac \<and> fp = []) then None
         else
           (case number_exponent r3 of
              None \<Rightarrow> None
            | Some ex \<Rightarrow>
                let ds = ip @ fp;
                    z = length (takeWhile (\<lambda>c. c = 48) (rev ds));
                    m = digits_val (take (length ds - z) ds)
                in if m = 0 then Some (0, 0)
                   else Some (if neg then - int m else int m, ex - int (length fp) + int z)))"

text \<open>The lexer.  A number is the longest run of number characters, checked against the
  number grammar as a whole; a valid JSON text never has a number character right after
  a number.\<close>

definition emit :: "token \<Rightarrow> token list option \<Rightarrow> token list option" where
  "emit t r = map_option (Cons t) r"

function lex :: "jsstring \<Rightarrow> token list option" where
  "lex [] = Some []"
| "lex (c # cs) =
     (if json_ws c then lex cs
      else if c = 123 then emit TLBrace (lex cs)
      else if c = 125 then emit TRBrace (lex cs)
      else if c = 91 then emit TLBracket (lex cs)
      else if c = 93 then emit TRBracket (lex cs)
      else if c = 58 then emit TColon (lex cs)
      else if c = 44 then emit TComma (lex cs)
      else if c = 34 then
        (case scan_string [] cs of
           None \<Rightarrow> None
         | Some (s, rest) \<Rightarrow> emit (TString s) (lex rest))
      else if c = 45 \<or> is_digit c then
        (case parse_number (c # takeWhile is_numchar cs) of
           None \<Rightarrow> None
         | Some (m, e) \<Rightarrow> emit (TNumber m e) (lex (dropWhile is_numchar cs)))
      else if c = 116 then
        (if take 3 cs = str ''rue'' then emit TTrue (lex (drop 3 cs)) else None)
      else if c = 102 then
        (if take 4 cs = str ''alse'' then emit TFalse (lex (drop 4 cs)) else None)
      else if c = 110 then
        (if take 3 cs = str ''ull'' then emit TNull (lex (drop 3 cs)) else None)
      else None)"
  by pat_completeness auto
termination
  by (relation "measure length")
     (auto dest: scan_string_shorter simp: less_Suc_eq_le length_dropWhile_le le_imp_less_Suc)

text \<open>
  The parser is a pushdown automaton over the tokens.  The stack holds the containers
  that are open: an array with the elements read so far, an object with the members
  read so far, or an object waiting for the value of a key.
\<close>

datatype frame =
    FArray "json list"
  | FObject "(jsstring \<times> json) list"
  | FMember "(jsstring \<times> json) list" jsstring

datatype pstate =
    PValue          \<comment> \<open>a value must start here\<close>
  | PArrayStart     \<comment> \<open>after an opening bracket: a value or the closing bracket\<close>
  | PObjectStart    \<comment> \<open>after an opening brace: a key or the closing brace\<close>
  | PKey            \<comment> \<open>after a comma in an object: a key\<close>
  | PColon jsstring \<comment> \<open>after a key: the colon\<close>
  | PNext           \<comment> \<open>after a value in a container: a comma or the closing token\<close>
  | PDone json      \<comment> \<open>the top-level value is complete\<close>

text \<open>A finished value goes into the innermost open container, or is the result.\<close>

fun attach :: "json \<Rightarrow> frame list \<Rightarrow> (pstate \<times> frame list) option" where
  "attach v [] = Some (PDone v, [])"
| "attach v (FArray xs # st) = Some (PNext, FArray (xs @ [v]) # st)"
| "attach v (FMember kvs k # st) = Some (PNext, FObject (kvs @ [(k, v)]) # st)"
| "attach v (FObject kvs # st) = None"

fun start_value :: "token \<Rightarrow> frame list \<Rightarrow> (pstate \<times> frame list) option" where
  "start_value TLBrace st = Some (PObjectStart, FObject [] # st)"
| "start_value TLBracket st = Some (PArrayStart, FArray [] # st)"
| "start_value (TString s) st = attach (JString s) st"
| "start_value (TNumber m e) st = attach (JNumber m e) st"
| "start_value TTrue st = attach (JBool True) st"
| "start_value TFalse st = attach (JBool False) st"
| "start_value TNull st = attach JNull st"
| "start_value _ st = None"

fun close_container :: "frame list \<Rightarrow> (pstate \<times> frame list) option" where
  "close_container (FArray xs # st) = attach (JArray xs) st"
| "close_container (FObject kvs # st) = attach (JObject kvs) st"
| "close_container _ = None"

fun pstep :: "pstate \<times> frame list \<Rightarrow> token \<Rightarrow> (pstate \<times> frame list) option" where
  "pstep (PValue, st) t = start_value t st"
| "pstep (PArrayStart, st) t =
     (if t = TRBracket then close_container st else start_value t st)"
| "pstep (PObjectStart, st) t =
     (case t of
        TRBrace \<Rightarrow> close_container st
      | TString k \<Rightarrow> Some (PColon k, st)
      | _ \<Rightarrow> None)"
| "pstep (PKey, st) t = (case t of TString k \<Rightarrow> Some (PColon k, st) | _ \<Rightarrow> None)"
| "pstep (PColon k, st) t =
     (case (t, st) of
        (TColon, FObject kvs # st') \<Rightarrow> Some (PValue, FMember kvs k # st')
      | _ \<Rightarrow> None)"
| "pstep (PNext, st) t =
     (case (t, st) of
        (TComma, FArray xs # st') \<Rightarrow> Some (PValue, st)
      | (TComma, FObject kvs # st') \<Rightarrow> Some (PKey, st)
      | (TRBracket, FArray xs # st') \<Rightarrow> close_container st
      | (TRBrace, FObject kvs # st') \<Rightarrow> close_container st
      | _ \<Rightarrow> None)"
| "pstep (PDone v, st) t = None"

fun prun :: "pstate \<times> frame list \<Rightarrow> token list \<Rightarrow> (pstate \<times> frame list) option" where
  "prun p [] = Some p"
| "prun p (t # ts) = (case pstep p t of None \<Rightarrow> None | Some p' \<Rightarrow> prun p' ts)"

text \<open>\<open>JSON.parse\<close>: \<open>None\<close> is the thrown \<open>SyntaxError\<close>.\<close>

definition JSON_parse :: "jsstring \<Rightarrow> json option" where
  "JSON_parse s =
     (case lex s of
        None \<Rightarrow> None
      | Some ts \<Rightarrow>
          (case prun (PValue, []) ts of
             Some (PDone v, []) \<Rightarrow> Some v
           | _ \<Rightarrow> None))"

section \<open>JavaScript operations on parsed values\<close>

text \<open>A value read from a record is \<open>None\<close> when it is \<open>undefined\<close>.\<close>

fun js_truthy :: "json \<Rightarrow> bool" where
  "js_truthy JNull = False"
| "js_truthy (JBool b) = b"
| "js_truthy (JNumber m e) = (m \<noteq> 0)"
| "js_truthy (JString s) = (s \<noteq> [])"
| "js_truthy (JArray xs) = True"
| "js_truthy (JObject kvs) = True"

text \<open>
  Reading a property of a value other than \<open>null\<close>.  The program reads the names
  \<open>Credits\<close>, \<open>model\<close>, \<open>message\<close> and \<open>content\<close> only; none of them is a property
  of a string, number, boolean or array, nor of \<open>Object.prototype\<close>.
\<close>

fun get_property :: "json \<Rightarrow> jsstring \<Rightarrow> json option" where
  "get_property (JObject kvs) k = map_of (rev kvs) k"
| "get_property j k = None"

text \<open>
  \<open>Number::toString\<close> for the number \<open>m * 10 ^ e\<close>: \<open>k\<close> digits, the decimal point
  after the \<open>n\<close>th.  JavaScript prints the shortest digits that give back the same
  double; they are the digits of \<open>m\<close> for a number of at most 15 significant digits
  within the range of a double, which covers the credit counts the service sends.
\<close>

definition number_to_string :: "int \<Rightarrow> int \<Rightarrow> jsstring" where
  "number_to_string m e =
     (if m = 0 then [48]
      else
        let ds = dec (nat \<bar>m\<bar>);
            k = int (length ds);
            n = k + e;
            digits =
              (if k \<le> n \<and> n \<le> 21 then ds @ replicate (nat (n - k)) 48
               else if 0 < n \<and> n \<le> 21 then take (nat n) ds @ [46] @ drop (nat n) ds
               else if - 6 < n \<and> n \<le> 0 then [48, 46] @ replicate (nat (- n)) 48 @ ds
               else
                 let ex = (if n - 1 < 0 then 45 else 43) # dec (nat \<bar>n - 1\<bar>)
                 in if k = 1 then ds @ [101] @ ex
                    else take 1 ds @ [46] @ drop 1 ds @ [101] @ ex)
        in if m < 0 then 45 # digits else digits)"

text \<open>
  \<open>ToString\<close>, as a template literal and \<open>+=\<close> on a string apply it.  \<open>None\<close> is the
  thrown \<open>TypeError\<close>: an object with a member named \<open>toString\<close> has no callable
  conversion.  An array joins its elements with commas, \<open>null\<close> giving the empty string.
\<close>

fun js_ToString :: "json \<Rightarrow> jsstring option"
  and join :: "json list \<Rightarrow> jsstring option" where
  "js_ToString JNull = Some (str ''null'')"
| "js_ToString (JBool b) = Some (if b then str ''true'' else str ''false'')"
| "js_ToString (JNumber m e) = Some (number_to_string m e)"
| "js_ToString (JString s) = Some s"
| "js_ToString (JArray xs) = join xs"
| "js_ToString (JObject kvs) =
     (if str ''toString'' \<in> fst ` set kvs then None else Some (str ''[object Object]''))"
| "join [] = Some []"
| "join (x # xs) =
     (case (if x = JNull then Some [] else js_ToString x) of
        None \<Rightarrow> None
      | Some a \<Rightarrow>
          if xs = [] then Some a
          else (case join xs of None \<Rightarrow> None | Some b \<Rightarrow> Some (a @ [44] @ b)))"

section \<open>The chat client: data\<close>

text \<open>An entry of \<open>conversationHistory\<close>.  The model of an assistant entry is whatever
  truthy value the last record's \<open>model\<close> member held, or the empty string.\<close>

record message =
  role :: jsstring
  content :: jsstring
  model :: "json option"

text \<open>What \<open>JSON.stringify\<close> writes for an entry: its own properties, in creation order.\<close>

definition message_json :: "message \<Rightarrow> json" where
  "message_json m =
     JObject ([(str ''role'', JString (role m)), (str ''content'', JString (content m))]
              @ (case model m of None \<Rightarrow> [] | Some v \<Rightarrow> [(str ''model'', v)]))"

record request =
  url :: jsstring
  http_method :: jsstring
  headers :: "(jsstring \<times> jsstring) list"
  body :: json

text \<open>What the network gives back.  A body is the sequence of its reads: each read yields
  the text the streaming \<open>TextDecoder\<close> produces for the chunk, or rejects; after the last
  one the stream is done.\<close>

datatype read_event = Value jsstring | ReadRejects

datatype response =
  Response (ok: bool) (location_header: "jsstring option") (response_body: "read_event list option")

datatype fetch_result = Rejected | Resolved response

datatype js_error = FetchRejected | ReadRejected | TypeError | SyntaxError

datatype 'a completion = Return 'a | Throw js_error

text \<open>What the program does to the page, the console, the clock and the network, in order.\<close>

datatype event =
    Fetch request
  | Sleep nat
  | UpdateStatus jsstring
  | ConsoleWarn jsstring "jsstring list"
  | AddMessage jsstring jsstring "json option"
  | UpdateMessageContent jsstring
  | ShowTypingIndicator bool

record app_state =
  conversationHistory :: "message list"
  accessToken :: "jsstring option"
  localStorage :: "message list option"
  storage_full :: bool
  pathname :: jsstring
  href :: "jsstring option"
  messagesContainer :: bool
  messageInput_value :: jsstring
  controls_disabled :: bool
  trace :: "event list"

text \<open>
  \<open>localStorage\<close> is the item stored under \<open>STORAGE_KEY\<close>, kept as the list whose
  serialisation it is; \<open>storage_full\<close> says that \<open>setItem\<close> throws; \<open>messagesContainer\<close>
  says that the page has the element with id \<open>messages\<close>; \<open>href\<close> is the address
  assigned to \<open>window.location.href\<close>.
\<close>

definition API_URL :: jsstring where
  "API_URL = str ''https://local.api.peerwave.ai:8080''"

definition MAX_RETRY_ATTEMPTS :: nat where
  "MAX_RETRY_ATTEMPTS = 3"

definition RETRY_DELAY :: nat where
  "RETRY_DELAY = 1000"

record reader_state =
  assistantMessage :: jsstring
  messageElement :: bool
  handledModel :: json

text \<open>The reader's variables as \<open>handleStreamingResponse\<close> declares them.\<close>

definition new_reader :: reader_state where
  "new_reader = \<lparr>assistantMessage = [], messageElement = False, handledModel = JString []\<rparr>"

section \<open>The chat client: operations\<close>

definition log :: "event \<Rightarrow> app_state \<Rightarrow> app_state" where
  "log ev s = s\<lparr>trace := trace s @ [ev]\<rparr>"

definition updateStatus :: "jsstring \<Rightarrow> app_state \<Rightarrow> app_state" where
  "updateStatus msg s = log (UpdateStatus msg) s"

definition showTypingIndicator :: "bool \<Rightarrow> app_state \<Rightarrow> app_state" where
  "showTypingIndicator show s = log (ShowTypingIndicator show) s"

definition updateMessageContent :: "jsstring \<Rightarrow> app_state \<Rightarrow> app_state" where
  "updateMessageContent newContent s = log (UpdateMessageContent newContent) s"

definition sleep :: "nat \<Rightarrow> app_state \<Rightarrow> app_state" where
  "sleep ms s = log (Sleep ms) s"

text \<open>\<open>addMessage\<close> returns whether it hands back an element.  The model indicator of an
  assistant message converts the model to a string before the container is looked up.\<close>

definition addMessage ::
  "jsstring \<Rightarrow> jsstring \<Rightarrow> bool \<Rightarrow> json option \<Rightarrow> app_state \<Rightarrow> bool completion \<times> app_state" where
  "addMessage r c returnElement mdl s =
     (if r = str ''assistant'' \<and> (case mdl of None \<Rightarrow> False | Some v \<Rightarrow> js_truthy v)
         \<and> (case mdl of None \<Rightarrow> False | Some v \<Rightarrow> js_ToString v = None)
      then (Throw TypeError, s)
      else if \<not> messagesContainer s then (Return False, s)
      else (Return returnElement, log (AddMessage r c mdl) s))"

definition saveConversationToStorage :: "app_state \<Rightarrow> app_state" where
  "saveConversationToStorage s =
     (if storage_full s
      then log (ConsoleWarn (str ''Failed to save conversation to localStorage:'') []) s
      else s\<lparr>localStorage := Some (conversationHistory s)\<rparr>)"

text \<open>The last 20 entries: \<open>conversationHistory.slice(-20)\<close>.\<close>

definition recentHistory :: "app_state \<Rightarrow> message list" where
  "recentHistory s = drop (length (conversationHistory s) - 20) (conversationHistory s)"

definition requestBody :: "app_state \<Rightarrow> json" where
  "requestBody s =
     JObject [(str ''model'', JString (str ''cheapest'')),
              (str ''messages'', JArray (map message_json (recentHistory s)))]"

definition buildRequest :: "app_state \<Rightarrow> request" where
  "buildRequest s =
     \<lparr>url = API_URL @ str ''/api/chat/stream'',
      http_method = str ''POST'',
      headers =
        [(str ''Content-Type'', str ''application/json''),
         (str ''Redirect'', if pathname s \<noteq> [] then pathname s else str ''/'')]
        @ (case accessToken s of
             None \<Rightarrow> []
           | Some tok \<Rightarrow> if tok \<noteq> [] then [(str ''Authorization'', tok)] else []),
      body = requestBody s\<rparr>"

text \<open>
  The body of the \<open>try\<close> block for one line, in three parts.  Each gives the error
  thrown, if any, with the reader's variables and the state as they are at that point.

  \<open>render\<close> is the block that creates or updates the assistant message element.
\<close>

definition render ::
  "reader_state \<Rightarrow> app_state \<Rightarrow> js_error option \<times> reader_state \<times> app_state" where
  "render r s =
     (if \<not> messageElement r then
        (case addMessage (str ''assistant'') (assistantMessage r) True (Some (handledModel r))
                (showTypingIndicator False s) of
           (Throw err, s') \<Rightarrow> (Some err, r, s')
         | (Return el, s') \<Rightarrow> (None, r\<lparr>messageElement := el\<rparr>, s'))
      else (None, r, updateMessageContent (assistantMessage r) s))"

text \<open>\<open>regular_message\<close> is the statement guarded by
  \<open>data.message && data.message.content\<close>.\<close>

definition regular_message ::
  "json \<Rightarrow> reader_state \<Rightarrow> app_state \<Rightarrow> js_error option \<times> reader_state \<times> app_state" where
  "regular_message data r s =
     (case get_property data (str ''message'') of
        None \<Rightarrow> (None, r, s)
      | Some msg \<Rightarrow>
          if \<not> js_truthy msg then (None, r, s)
          else
            (case get_property msg (str ''content'') of
               None \<Rightarrow> (None, r, s)
             | Some c \<Rightarrow>
                 if \<not> js_truthy c then (None, r, s)
                 else
                   (case js_ToString c of
                      None \<Rightarrow> (Some TypeError, r, s)
                    | Some text \<Rightarrow>
                        render (r\<lparr>assistantMessage := assistantMessage r @ text\<rparr>) s)))"

definition try_line ::
  "jsstring \<Rightarrow> reader_state \<Rightarrow> app_state \<Rightarrow> js_error option \<times> reader_state \<times> app_state" where
  "try_line line r s =
     (case JSON_parse line of
        None \<Rightarrow> (Some SyntaxError, r, s)
      | Some data \<Rightarrow>
          if data = JNull then (Some TypeError, r, s)
          else
            (case get_property data (str ''Credits'') of
               Some credits \<Rightarrow>
                 (case js_ToString credits of
                    None \<Rightarrow> (Some TypeError, r, s)
                  | Some c \<Rightarrow> (None, r, updateStatus (str ''Credits used: '' @ c) s))
             | None \<Rightarrow>
                 regular_message data
                   (case get_property data (str ''model'') of
                      None \<Rightarrow> r
                    | Some m \<Rightarrow> if js_truthy m then r\<lparr>handledModel := m\<rparr> else r)
                   s))"

text \<open>One round of the \<open>for\<close> loop: a blank line is skipped, an error is caught and
  logged with the line.\<close>

definition process_line :: "jsstring \<Rightarrow> reader_state \<times> app_state \<Rightarrow> reader_state \<times> app_state" where
  "process_line line rs =
     (if trim line \<noteq> [] then
        (case try_line line (fst rs) (snd rs) of
           (None, r', s') \<Rightarrow> (r', s')
         | (Some err, r', s') \<Rightarrow>
             (r', log (ConsoleWarn (str ''Error parsing streaming response:'') [line]) s'))
      else rs)"

fun process_lines :: "jsstring list \<Rightarrow> reader_state \<times> app_state \<Rightarrow> reader_state \<times> app_state" where
  "process_lines [] rs = rs"
| "process_lines (line # lines) rs = process_lines lines (process_line line rs)"

text \<open>\<open>readStreamChunk\<close> calls itself once per read until the stream is done.\<close>

fun readStreamChunk ::
  "read_event list \<Rightarrow> reader_state \<times> app_state \<Rightarrow> unit completion \<times> reader_state \<times> app_state" where
  "readStreamChunk [] rs = (Return (), rs)"
| "readStreamChunk (ReadRejects # reads) rs = (Throw ReadRejected, rs)"
| "readStreamChunk (Value decoded # reads) rs =
     readStreamChunk reads (process_lines (split 10 decoded) rs)"

definition handleStreamingResponse :: "fetch_result \<Rightarrow> app_state \<Rightarrow> bool completion \<times> app_state" where
  "handleStreamingResponse fr s =
     (let s1 = log (Fetch (buildRequest s)) s in
      case fr of
        Rejected \<Rightarrow> (Throw FetchRejected, s1)
      | Resolved resp \<Rightarrow>
          if \<not> ok resp then
            (case location_header resp of
               None \<Rightarrow> (Return False, s1)
             | Some loc \<Rightarrow>
                 if loc \<noteq> [] then
                   (case addMessage (str ''system'') (str ''Redirecting to authenticate...'')
                           False None s1 of
                      (Throw err, s2) \<Rightarrow> (Throw err, s2)
                    | (Return el, s2) \<Rightarrow> (Return True, s2\<lparr>href := Some loc\<rparr>))
                 else (Return False, s1))
          else
            (case response_body resp of
               None \<Rightarrow> (Throw TypeError, s1)
             | Some reads \<Rightarrow>
                 (case readStreamChunk reads (new_reader, s1) of
                    (Throw err, r, s2) \<Rightarrow> (Throw err, s2)
                  | (Return u, r, s2) \<Rightarrow>
                      if assistantMessage r \<noteq> [] then
                        (Return True,
                         saveConversationToStorage
                           (s2\<lparr>conversationHistory := conversationHistory s2 @
                                 [\<lparr>role = str ''assistant'', content = assistantMessage r,
                                   model = Some (handledModel r)\<rparr>]\<rparr>))
                      else (Return True, s2))))"

text \<open>The retry loop.  \<open>net n\<close> is what the network does at attempt \<open>n\<close>.  The attempt
  number starts at 1 and only grows, so the exponent \<open>attemptNumber - 1\<close> is never negative.\<close>

function handleStreamingResponseWithRetry ::
  "(nat \<Rightarrow> fetch_result) \<Rightarrow> nat \<Rightarrow> app_state \<Rightarrow> bool completion \<times> app_state" where
  "handleStreamingResponseWithRetry net attemptNumber s =
     (case handleStreamingResponse (net attemptNumber) s of
        (Throw err, s1) \<Rightarrow> (Throw err, s1)
      | (Return success, s1) \<Rightarrow>
          if success then (Return True, s1)
          else if attemptNumber < MAX_RETRY_ATTEMPTS then
            (let delay = RETRY_DELAY * 2 ^ (attemptNumber - 1);
                 s2 = updateStatus
                        (str ''Request failed, retrying in '' @ dec (delay div 1000)
                         @ str ''s... ('' @ dec attemptNumber @ str ''/''
                         @ dec MAX_RETRY_ATTEMPTS @ str '')'') s1
             in handleStreamingResponseWithRetry net (attemptNumber + 1) (sleep delay s2))
          else (Return False, updateStatus (str ''Request failed after maximum retries'') s1))"
  by pat_completeness auto
termination
  by (relation "measure (\<lambda>(net, attemptNumber, s). MAX_RETRY_ATTEMPTS - attemptNumber)") auto

declare handleStreamingResponseWithRetry.simps [simp del]

text \<open>
  \<open>sendWrapper\<close>.  \<open>disable_input\<close> is what it does before the \<open>try\<close>: it clears and
  disables the input and shows the typing indicator.  \<open>enable_input\<close> is its \<open>finally\<close>
  block, which runs on both exits; there is no \<open>catch\<close>.
\<close>

definition disable_input :: "app_state \<Rightarrow> app_state" where
  "disable_input s =
     showTypingIndicator True (s\<lparr>messageInput_value := [], controls_disabled := True\<rparr>)"

definition enable_input :: "app_state \<Rightarrow> app_state" where
  "enable_input s = (showTypingIndicator False s)\<lparr>controls_disabled := False\<rparr>"

definition sendWrapper :: "(nat \<Rightarrow> fetch_result) \<Rightarrow> app_state \<Rightarrow> unit completion \<times> app_state" where
  "sendWrapper net s =
     (case handleStreamingResponseWithRetry net 1 (disable_input s) of
        (Throw err, s1) \<Rightarrow> (Throw err, enable_input s1)
      | (Return success, s1) \<Rightarrow>
          if \<not> success then
            (if conversationHistory s1 \<noteq> []
                \<and> role (last (conversationHistory s1)) = str ''user''
             then (Return (),
                   enable_input
                     (saveConversationToStorage
                        (s1\<lparr>conversationHistory := butlast (conversationHistory s1)\<rparr>)))
             else (Return (), enable_input s1))
          else (Return (), enable_input s1))"

definition sendMessage :: "(nat \<Rightarrow> fetch_result) \<Rightarrow> app_state \<Rightarrow> unit completion \<times> app_state" where
  "sendMessage net s =
     (let message = trim (messageInput_value s) in
      if message = [] then (Return (), s)
      else
        (case addMessage (str ''user'') message False None s of
           (Throw err, s1) \<Rightarrow> (Throw err, s1)
         | (Return el, s1) \<Rightarrow>
             sendWrapper net
               (saveConversationToStorage
                  (s1\<lparr>conversationHistory := conversationHistory s1 @
                        [\<lparr>role = str ''user'', content = message, model = None\<rparr>]\<rparr>))))"

section \<open>Vocabulary of the properties\<close>

text \<open>
  A failed attempt is one for which \<open>handleStreamingResponse\<close> returns \<open>false\<close>: a
  response that is not ok and has no \<open>Location\<close> header with a non-empty value.
\<close>

definition server_failure :: "fetch_result \<Rightarrow> bool" where
  "server_failure fr =
     (case fr of
        Rejected \<Rightarrow> False
      | Resolved resp \<Rightarrow>
          \<not> ok resp \<and> (case location_header resp of None \<Rightarrow> True | Some loc \<Rightarrow> loc = []))"

text \<open>\<open>only_logs s s'\<close>: from \<open>s\<close> to \<open>s'\<close> the program has added events to the trace and
  changed nothing else.\<close>

definition only_logs :: "app_state \<Rightarrow> app_state \<Rightarrow> bool" where
  "only_logs s s' \<longleftrightarrow> (\<exists>evs. s' = s\<lparr>trace := trace s @ evs\<rparr>)"

text \<open>Example inputs: a network that answers every attempt alike, a network whose first
  \<open>k\<close> attempts fail with a response that is not ok, a page holding a given history with a
  given text in the input field, and a user entry.\<close>

definition always :: "fetch_result \<Rightarrow> nat \<Rightarrow> fetch_result" where
  "always fr n = fr"

definition after_failures :: "nat \<Rightarrow> fetch_result \<Rightarrow> nat \<Rightarrow> fetch_result" where
  "after_failures k fr n = (if n \<le> k then Resolved (Response False None None) else fr)"

definition page :: "message list \<Rightarrow> jsstring \<Rightarrow> app_state" where
  "page history input =
     \<lparr>conversationHistory = history, accessToken = None, localStorage = Some history,
      storage_full = False, pathname = str ''/'', href = None, messagesContainer = True,
      messageInput_value = input, controls_disabled = False, trace = []\<rparr>"

definition user_message :: "jsstring \<Rightarrow> message" where
  "user_message c = \<lparr>role = str ''user'', content = c, model = None\<rparr>"

text \<open>\<open>sendMessage\<close> with text in the input: the user entry is appended and saved, then
  \<open>sendWrapper\<close> runs.\<close>

definition appended :: "app_state \<Rightarrow> app_state" where
  "appended s =
     saveConversationToStorage
       ((if messagesContainer s
         then log (AddMessage (str ''user'') (trim (messageInput_value s)) None) s else s)
        \<lparr>conversationHistory := conversationHistory s @
            [user_message (trim (messageInput_value s))]\<rparr>)"

text \<open>The status notices and the warnings about unparsed lines of a trace; the names of
  the members of an object.\<close>

definition status_notices :: "app_state \<Rightarrow> jsstring list" where
  "status_notices s = [msg. UpdateStatus msg \<leftarrow> trace s]"

definition parse_warnings :: "app_state \<Rightarrow> jsstring list list" where
  "parse_warnings s =
     [args. ConsoleWarn label args \<leftarrow> trace s, label = str ''Error parsing streaming response:'']"

definition keys :: "json \<Rightarrow> jsstring list" where
  "keys j = (case j of JObject kvs \<Rightarrow> map fst kvs | _ \<Rightarrow> [])"

text \<open>A stream text made of lines, each ended by a line feed; a chunk that ends where a
  line ends.\<close>

definition lines_text :: "jsstring list \<Rightarrow> jsstring" where
  "lines_text ls = concat (map (\<lambda>l. l @ [10]) ls)"

definition line_aligned :: "jsstring \<Rightarrow> bool" where
  "line_aligned chunk \<longleftrightarrow> chunk = [] \<or> last chunk = 10"

text \<open>The records of the example stream, and a line that is not JSON.\<close>

definition line_Hel :: jsstring where
  \<open>line_Hel = str ''{"message":{"content":"Hel"}}''\<close>

definition line_lo :: jsstring where
  \<open>line_lo = str ''{"message":{"content":"lo"}}''\<close>

definition line_Credits :: jsstring where
  \<open>line_Credits = str ''{"Credits":3}''\<close>

definition line_not_json :: jsstring where
  \<open>line_not_json = str ''not json''\<close>

definition ok_stream :: "jsstring list \<Rightarrow> fetch_result" where
  "ok_stream chunks = Resolved (Response True None (Some (map Value chunks)))"

definition assistant_message :: "jsstring \<Rightarrow> json \<Rightarrow> message" where
  "assistant_message c m = \<lparr>role = str ''assistant'', content = c, model = Some m\<rparr>"

text \<open>The record of the same text on one line, and its two pieces when a chunk ends inside
  the line.\<close>

definition line_Hello :: jsstring where
  \<open>line_Hello = str ''{"message":{"content":"Hello"}}''\<close>

definition fragment_1 :: jsstring where
  \<open>fragment_1 = str ''{"message":{"content":"He''\<close>

definition fragment_2 :: jsstring where
  \<open>fragment_2 = str ''llo"}}''\<close>

text \<open>What one attempt returns and leaves behind: the result, the conversation, the status
  notices and the warnings about unparsed lines.\<close>

definition outcome_view ::
  "fetch_result \<Rightarrow> app_state \<Rightarrow> bool completion \<times> message list \<times> jsstring list
     \<times> jsstring list list" where
  "outcome_view fr s =
     (case handleStreamingResponse fr s of
        (c, s') \<Rightarrow> (c, conversationHistory s', status_notices s', parse_warnings s'))"

text \<open>A conversation of \<open>n\<close> user entries, numbered from 0.\<close>

definition numbered :: "nat \<Rightarrow> message list" where
  "numbered n = map (\<lambda>i. user_message (dec i)) [0..<n]"

text \<open>Two readers that hold the same accumulated text and the same model.\<close>

definition same_text :: "reader_state \<Rightarrow> reader_state \<Rightarrow> bool" where
  "same_text r r' \<longleftrightarrow>
     assistantMessage r = assistantMessage r' \<and> handledModel r = handledModel r'"

section \<open>What an attempt leaves untouched\<close>

lemma only_logs_refl [simp]: "only_logs s s"
  unfolding only_logs_def by (rule exI[of _ "[]"]) simp

lemma only_logs_trans: "only_logs s t \<Longrightarrow> only_logs t u \<Longrightarrow> only_logs s u"
  by (auto simp: only_logs_def)

lemma only_logs_log [simp]: "only_logs s t \<Longrightarrow> only_logs s (log ev t)"
  by (auto simp: only_logs_def log_def)

lemma only_logs_fields:
  assumes "only_logs s s'"
  shows "conversationHistory s' = conversationHistory s"
    and "accessToken s' = accessToken s"
    and "localStorage s' = localStorage s"
    and "storage_full s' = storage_full s"
    and "pathname s' = pathname s"
    and "href s' = href s"
    and "messagesContainer s' = messagesContainer s"
    and "messageInput_value s' = messageInput_value s"
    and "controls_disabled s' = controls_disabled s"
  using assms by (auto simp: only_logs_def)

lemma log_fields [simp]:
  "conversationHistory (log ev s) = conversationHistory s"
  "localStorage (log ev s) = localStorage s"
  "storage_full (log ev s) = storage_full s"
  "href (log ev s) = href s"
  "messagesContainer (log ev s) = messagesContainer s"
  "trace (log ev s) = trace s @ [ev]"
  by (simp_all add: log_def)

lemma render_only_logs: "only_logs s (snd (snd (render r s)))"
  by (simp add: render_def showTypingIndicator_def updateMessageContent_def addMessage_def
      split: prod.splits completion.splits)

lemma regular_message_only_logs: "only_logs s (snd (snd (regular_message data r s)))"
  by (simp add: regular_message_def render_only_logs split: option.splits)

lemma try_line_only_logs: "only_logs s (snd (snd (try_line line r s)))"
  by (simp add: try_line_def updateStatus_def regular_message_only_logs split: option.splits)

lemma process_line_only_logs: "only_logs (snd rs) (snd (process_line line rs))"
  using try_line_only_logs[of "snd rs" line "fst rs"]
  by (auto simp: process_line_def split: prod.splits option.splits)

lemma process_lines_only_logs: "only_logs (snd rs) (snd (process_lines lines rs))"
proof (induction lines arbitrary: rs)
  case (Cons line lines)
  show ?case
    using only_logs_trans[OF process_line_only_logs Cons.IH] by simp
qed simp

lemma readStreamChunk_only_logs: "only_logs (snd rs) (snd (snd (readStreamChunk reads rs)))"
proof (induction reads rs rule: readStreamChunk.induct)
  case (3 decoded reads rs)
  then show ?case
    using only_logs_trans[OF process_lines_only_logs] by simp
qed simp_all

lemma readStreamChunk_frame:
  assumes "readStreamChunk reads (r0, s) = (c, r, s2)"
  shows "only_logs s s2"
  using readStreamChunk_only_logs[of "(r0, s)" reads] assms by simp

lemma readStreamChunk_throws:
  "fst (readStreamChunk reads rs) = Throw err \<Longrightarrow> err = ReadRejected"
  by (induction reads rs rule: readStreamChunk.induct) auto

lemma buildRequest_only_logs: "only_logs s t \<Longrightarrow> buildRequest t = buildRequest s"
  by (auto simp: only_logs_def buildRequest_def requestBody_def recentHistory_def)

lemma buildRequest_log [simp]: "buildRequest (log ev s) = buildRequest s"
  by (simp add: buildRequest_only_logs)

section \<open>One attempt\<close>

lemma hSR_server_failure:
  "server_failure fr \<Longrightarrow>
   handleStreamingResponse fr s = (Return False, log (Fetch (buildRequest s)) s)"
  by (auto simp: server_failure_def handleStreamingResponse_def Let_def
      split: fetch_result.splits option.splits)

lemma hSR_False_iff:
  "fst (handleStreamingResponse fr s) = Return False \<longleftrightarrow> server_failure fr"
  by (auto simp: server_failure_def handleStreamingResponse_def Let_def addMessage_def
      split: fetch_result.splits option.splits prod.splits completion.splits if_splits)

lemma hSR_rejected:
  "handleStreamingResponse Rejected s = (Throw FetchRejected, log (Fetch (buildRequest s)) s)"
  by (simp add: handleStreamingResponse_def Let_def)

lemma hSR_redirect:
  assumes "\<not> ok resp" and "location_header resp = Some loc" and "loc \<noteq> []"
  shows "handleStreamingResponse (Resolved resp) s =
     (Return True,
      (if messagesContainer s
       then log (AddMessage (str ''system'') (str ''Redirecting to authenticate...'') None)
              (log (Fetch (buildRequest s)) s)
       else log (Fetch (buildRequest s)) s)\<lparr>href := Some loc\<rparr>)"
  using assms
  by (simp add: handleStreamingResponse_def Let_def addMessage_def str_def)

lemma hSR_no_body:
  assumes "ok resp" and "response_body resp = None"
  shows "handleStreamingResponse (Resolved resp) s
     = (Throw TypeError, log (Fetch (buildRequest s)) s)"
  using assms by (simp add: handleStreamingResponse_def Let_def)

lemma hSR_stream:
  assumes "ok resp" and "response_body resp = Some reads"
    and "readStreamChunk reads (new_reader, log (Fetch (buildRequest s)) s) = (Return (), r, s2)"
  shows "handleStreamingResponse (Resolved resp) s =
     (Return True,
      if assistantMessage r \<noteq> [] then
        saveConversationToStorage
          (s2\<lparr>conversationHistory := conversationHistory s2 @
               [\<lparr>role = str ''assistant'', content = assistantMessage r,
                 model = Some (handledModel r)\<rparr>]\<rparr>)
      else s2)"
  using assms by (simp add: handleStreamingResponse_def Let_def)

lemma hSR_stream_throws:
  assumes "ok resp" and "response_body resp = Some reads"
    and "readStreamChunk reads (new_reader, log (Fetch (buildRequest s)) s) = (Throw err, r, s2)"
  shows "handleStreamingResponse (Resolved resp) s = (Throw ReadRejected, s2)"
proof -
  have "err = ReadRejected"
    using readStreamChunk_throws[of reads "(new_reader, log (Fetch (buildRequest s)) s)" err]
      assms(3) by simp
  then show ?thesis
    using assms by (simp add: handleStreamingResponse_def Let_def)
qed

section \<open>The retry loop\<close>

lemma dec_digit: "n < 10 \<Longrightarrow> dec n = [48 + n]"
  by (simp add: dec.simps)

lemma retry_again:
  assumes "server_failure (net n)" and "n < MAX_RETRY_ATTEMPTS"
  shows "handleStreamingResponseWithRetry net n s =
     handleStreamingResponseWithRetry net (Suc n)
       (sleep (RETRY_DELAY * 2 ^ (n - 1))
         (updateStatus
            (str ''Request failed, retrying in '' @ dec (RETRY_DELAY * 2 ^ (n - 1) div 1000)
             @ str ''s... ('' @ dec n @ str ''/'' @ dec MAX_RETRY_ATTEMPTS @ str '')'')
            (log (Fetch (buildRequest s)) s)))"
  using assms
  by (subst handleStreamingResponseWithRetry.simps) (simp add: hSR_server_failure Let_def)

lemma retry_exhausted:
  assumes "server_failure (net n)" and "\<not> n < MAX_RETRY_ATTEMPTS"
  shows "handleStreamingResponseWithRetry net n s =
     (Return False,
      updateStatus (str ''Request failed after maximum retries'')
        (log (Fetch (buildRequest s)) s))"
  using assms
  by (subst handleStreamingResponseWithRetry.simps) (simp add: hSR_server_failure)

lemma retry_settled:
  assumes "\<not> server_failure (net n)"
  shows "handleStreamingResponseWithRetry net n s = handleStreamingResponse (net n) s"
proof -
  obtain c s1 where h: "handleStreamingResponse (net n) s = (c, s1)"
    by (cases "handleStreamingResponse (net n) s")
  with assms hSR_False_iff[of "net n" s] have "c \<noteq> Return False" by simp
  with h show ?thesis
    by (subst handleStreamingResponseWithRetry.simps) (cases c; simp)
qed

lemma retry_first:
  assumes "server_failure (net 1)"
  shows "handleStreamingResponseWithRetry net 1 s =
     handleStreamingResponseWithRetry net 2
       (sleep 1000 (updateStatus (str ''Request failed, retrying in 1s... (1/3)'')
          (log (Fetch (buildRequest s)) s)))"
proof -
  have "str ''Request failed, retrying in '' @ dec (RETRY_DELAY * 2 ^ (1 - 1) div 1000)
          @ str ''s... ('' @ dec 1 @ str ''/'' @ dec MAX_RETRY_ATTEMPTS @ str '')''
        = str ''Request failed, retrying in 1s... (1/3)''"
    by (simp add: MAX_RETRY_ATTEMPTS_def RETRY_DELAY_def dec_digit str_def)
  moreover have "RETRY_DELAY * 2 ^ (1 - 1) = 1000" "Suc 1 = 2" "1 < MAX_RETRY_ATTEMPTS"
    by (simp_all add: RETRY_DELAY_def MAX_RETRY_ATTEMPTS_def)
  ultimately show ?thesis
    using retry_again[of net 1 s] assms by (simp only:)
qed

lemma retry_second:
  assumes "server_failure (net 2)"
  shows "handleStreamingResponseWithRetry net 2 s =
     handleStreamingResponseWithRetry net 3
       (sleep 2000 (updateStatus (str ''Request failed, retrying in 2s... (2/3)'')
          (log (Fetch (buildRequest s)) s)))"
proof -
  have "str ''Request failed, retrying in '' @ dec (RETRY_DELAY * 2 ^ (2 - 1) div 1000)
          @ str ''s... ('' @ dec 2 @ str ''/'' @ dec MAX_RETRY_ATTEMPTS @ str '')''
        = str ''Request failed, retrying in 2s... (2/3)''"
    by (simp add: MAX_RETRY_ATTEMPTS_def RETRY_DELAY_def dec_digit str_def)
  moreover have "RETRY_DELAY * 2 ^ (2 - 1) = 2000" "Suc 2 = 3" "2 < MAX_RETRY_ATTEMPTS"
    by (simp_all add: RETRY_DELAY_def MAX_RETRY_ATTEMPTS_def)
  ultimately show ?thesis
    using retry_again[of net 2 s] assms by (simp only:)
qed

lemma retry_third:
  assumes "server_failure (net 3)"
  shows "handleStreamingResponseWithRetry net 3 s =
     (Return False,
      updateStatus (str ''Request failed after maximum retries'')
        (log (Fetch (buildRequest s)) s))"
  using retry_exhausted[of net 3 s] assms by (simp add: MAX_RETRY_ATTEMPTS_def)

section \<open>The send wrapper\<close>

lemma disable_input_fields [simp]:
  "conversationHistory (disable_input s) = conversationHistory s"
  "localStorage (disable_input s) = localStorage s"
  "storage_full (disable_input s) = storage_full s"
  "href (disable_input s) = href s"
  "messagesContainer (disable_input s) = messagesContainer s"
  "trace (disable_input s) = trace s @ [ShowTypingIndicator True]"
  by (simp_all add: disable_input_def showTypingIndicator_def)

lemma enable_input_fields [simp]:
  "conversationHistory (enable_input s) = conversationHistory s"
  "localStorage (enable_input s) = localStorage s"
  "storage_full (enable_input s) = storage_full s"
  "href (enable_input s) = href s"
  "messagesContainer (enable_input s) = messagesContainer s"
  "trace (enable_input s) = trace s @ [ShowTypingIndicator False]"
  by (simp_all add: enable_input_def showTypingIndicator_def)

lemma buildRequest_disable_input [simp]: "buildRequest (disable_input s) = buildRequest s"
  by (simp add: buildRequest_def requestBody_def recentHistory_def disable_input_def
      showTypingIndicator_def log_def)

lemma sendWrapper_success:
  assumes "handleStreamingResponseWithRetry net 1 (disable_input s) = (Return True, s1)"
  shows "sendWrapper net s = (Return (), enable_input s1)"
  using assms by (simp add: sendWrapper_def)

lemma sendWrapper_throw:
  assumes "handleStreamingResponseWithRetry net 1 (disable_input s) = (Throw err, s1)"
  shows "sendWrapper net s = (Throw err, enable_input s1)"
  using assms by (simp add: sendWrapper_def)

lemma sendWrapper_failure:
  assumes "handleStreamingResponseWithRetry net 1 (disable_input s) = (Return False, s1)"
  shows "sendWrapper net s =
     (Return (),
      enable_input
        (if conversationHistory s1 \<noteq> [] \<and> role (last (conversationHistory s1)) = str ''user''
         then saveConversationToStorage
                (s1\<lparr>conversationHistory := butlast (conversationHistory s1)\<rparr>)
         else s1))"
  using assms by (simp add: sendWrapper_def)

text \<open>The attempts before the \<open>k\<close>th have failed: the loop arrives at attempt \<open>k\<close> having
  only logged.\<close>

lemma retry_reaches:
  assumes "k = 1 \<or> k = 2 \<or> k = 3" and "\<forall>i. 1 \<le> i \<and> i < k \<longrightarrow> server_failure (net i)"
  shows "\<exists>sk. only_logs s sk \<and>
     handleStreamingResponseWithRetry net 1 s = handleStreamingResponseWithRetry net k sk"
proof -
  consider "k = 1" | "k = 2" | "k = 3" using assms(1) by blast
  then show ?thesis
  proof cases
    case 1
    then show ?thesis using only_logs_refl by blast
  next
    case 2
    with assms(2) have f1: "server_failure (net 1)" by simp
    show ?thesis
      unfolding 2 retry_first[of net, OF f1]
      by (rule exI, rule conjI[OF _ refl]) (simp add: sleep_def updateStatus_def)
  next
    case 3
    with assms(2) have f1: "server_failure (net 1)" and f2: "server_failure (net 2)" by simp_all
    show ?thesis
      unfolding 3 retry_first[of net, OF f1] retry_second[of net, OF f2]
      by (rule exI, rule conjI[OF _ refl]) (simp add: sleep_def updateStatus_def)
  qed
qed

lemma save_fields [simp]:
  "conversationHistory (saveConversationToStorage s) = conversationHistory s"
  "href (saveConversationToStorage s) = href s"
  "storage_full (saveConversationToStorage s) = storage_full s"
  "messagesContainer (saveConversationToStorage s) = messagesContainer s"
  by (simp_all add: saveConversationToStorage_def)

lemma hSR_True_history:
  assumes "handleStreamingResponse fr s = (Return True, s1)"
  shows "conversationHistory s1 = conversationHistory s
     \<or> (\<exists>t mdl. t \<noteq> [] \<and> conversationHistory s1 = conversationHistory s @
           [\<lparr>role = str ''assistant'', content = t, model = Some mdl\<rparr>])"
proof (cases fr)
  case Rejected
  with assms show ?thesis by (simp add: hSR_rejected)
next
  case (Resolved resp)
  show ?thesis
  proof (cases "ok resp")
    case False
    with assms Resolved show ?thesis
      by (auto simp: handleStreamingResponse_def Let_def addMessage_def
          split: option.splits if_splits)
  next
    case True
    show ?thesis
    proof (cases "response_body resp")
      case None
      with assms Resolved True show ?thesis by (simp add: hSR_no_body)
    next
      case (Some reads)
      obtain c r s2 where rd:
        "readStreamChunk reads (new_reader, log (Fetch (buildRequest s)) s) = (c, r, s2)"
        by (metis prod_cases3)
      have h2: "conversationHistory s2 = conversationHistory s"
        using only_logs_fields(1)[OF readStreamChunk_frame[OF rd]] by simp
      show ?thesis
      proof (cases c)
        case (Throw err)
        with assms Resolved hSR_stream_throws[OF True Some, of s err r s2] rd
        show ?thesis by simp
      next
        case (Return u)
        with assms Resolved hSR_stream[OF True Some, of s r s2] rd h2
        show ?thesis by (auto split: if_splits)
      qed
    qed
  qed
qed

lemma retry_False_frame:
  "handleStreamingResponseWithRetry net n s = (Return False, s') \<Longrightarrow> only_logs s s'"
proof (induction net n s rule: handleStreamingResponseWithRetry.induct)
  case (1 net n s)
  show ?case
  proof (cases "server_failure (net n)")
    case False
    with "1.prems" retry_settled[of net n s] hSR_False_iff[of "net n" s]
    show ?thesis by simp
  next
    case sf: True
    show ?thesis
    proof (cases "n < MAX_RETRY_ATTEMPTS")
      case False
      with "1.prems" retry_exhausted[of net n s] sf show ?thesis
        by (auto simp: updateStatus_def)
    next
      case True
      let ?s2 = "sleep (RETRY_DELAY * 2 ^ (n - 1))
         (updateStatus
            (str ''Request failed, retrying in '' @ dec (RETRY_DELAY * 2 ^ (n - 1) div 1000)
             @ str ''s... ('' @ dec n @ str ''/'' @ dec MAX_RETRY_ATTEMPTS @ str '')'')
            (log (Fetch (buildRequest s)) s))"
      have "handleStreamingResponseWithRetry net (n + 1) ?s2 = (Return False, s')"
        using "1.prems" retry_again[of net n s] sf True by simp
      then have "only_logs ?s2 s'"
        using "1.IH"[OF hSR_server_failure[OF sf, of s, symmetric] refl _ True refl refl]
        by (simp add: updateStatus_def)
      moreover have "only_logs s ?s2"
        by (simp add: sleep_def updateStatus_def)
      ultimately show ?thesis by (rule only_logs_trans[rotated])
    qed
  qed
qed

lemma retry_True_history:
  "handleStreamingResponseWithRetry net n s = (Return True, s') \<Longrightarrow>
   conversationHistory s' = conversationHistory s
     \<or> (\<exists>t mdl. t \<noteq> [] \<and> conversationHistory s' = conversationHistory s @
           [\<lparr>role = str ''assistant'', content = t, model = Some mdl\<rparr>])"
proof (induction net n s rule: handleStreamingResponseWithRetry.induct)
  case (1 net n s)
  show ?case
  proof (cases "server_failure (net n)")
    case False
    with "1.prems" retry_settled[of net n s] hSR_True_history[of "net n" s s']
    show ?thesis by simp
  next
    case sf: True
    show ?thesis
    proof (cases "n < MAX_RETRY_ATTEMPTS")
      case False
      with "1.prems" retry_exhausted[of net n s] sf show ?thesis by simp
    next
      case True
      let ?s2 = "sleep (RETRY_DELAY * 2 ^ (n - 1))
         (updateStatus
            (str ''Request failed, retrying in '' @ dec (RETRY_DELAY * 2 ^ (n - 1) div 1000)
             @ str ''s... ('' @ dec n @ str ''/'' @ dec MAX_RETRY_ATTEMPTS @ str '')'')
            (log (Fetch (buildRequest s)) s))"
      have "handleStreamingResponseWithRetry net (n + 1) ?s2 = (Return True, s')"
        using "1.prems" retry_again[of net n s] sf True by simp
      then have "conversationHistory s' = conversationHistory ?s2
         \<or> (\<exists>t mdl. t \<noteq> [] \<and> conversationHistory s' = conversationHistory ?s2 @
               [\<lparr>role = str ''assistant'', content = t, model = Some mdl\<rparr>])"
        using "1.IH"[OF hSR_server_failure[OF sf, of s, symmetric] refl _ True refl refl]
        by (simp add: updateStatus_def)
      then show ?thesis by (simp add: sleep_def updateStatus_def)
    qed
  qed
qed

lemma retry_exhausted_iff:
  "fst (handleStreamingResponseWithRetry net 1 s) = Return False \<longleftrightarrow>
     server_failure (net 1) \<and> server_failure (net 2) \<and> server_failure (net 3)"
proof (cases "server_failure (net 1)")
  case False
  then show ?thesis
    using retry_settled[of net 1 s] hSR_False_iff[of "net 1" s] by simp
next
  case f1: True
  show ?thesis
  proof (cases "server_failure (net 2)")
    case False
    then show ?thesis
      unfolding retry_first[of net, OF f1]
      using retry_settled[of net 2] hSR_False_iff[of "net 2"] by simp
  next
    case f2: True
    show ?thesis
    proof (cases "server_failure (net 3)")
      case False
      then show ?thesis
        unfolding retry_first[of net, OF f1] retry_second[of net, OF f2]
        using retry_settled[of net 3] hSR_False_iff[of "net 3"] by simp
    next
      case f3: True
      then show ?thesis
        unfolding retry_first[of net, OF f1] retry_second[of net, OF f2]
          retry_third[of net, OF f3]
        using f1 f2 by simp
    qed
  qed
qed

lemma sendMessage_nonblank:
  assumes "trim (messageInput_value s) \<noteq> []"
  shows "sendMessage net s = sendWrapper net (appended s)"
  using assms
  by (simp add: sendMessage_def Let_def addMessage_def appended_def user_message_def str_def)

lemma appended_history [simp]:
  "conversationHistory (appended s) =
     conversationHistory s @ [user_message (trim (messageInput_value s))]"
  by (simp add: appended_def)

section \<open>Reading a stream\<close>

lemmas parse_simps = JSON_parse_def str_def json_ws_def is_digit_def emit_def is_numchar_def
  parse_number_def number_exponent_def digits_val_def hex4_def hex_val_def unescape_def Let_def

lemma parse_line_Hel:
  "JSON_parse line_Hel
     = Some (JObject [(str ''message'', JObject [(str ''content'', JString (str ''Hel''))])])"
  by (simp add: line_Hel_def parse_simps)

lemma parse_line_lo:
  "JSON_parse line_lo
     = Some (JObject [(str ''message'', JObject [(str ''content'', JString (str ''lo''))])])"
  by (simp add: line_lo_def parse_simps)

lemma parse_line_Credits:
  "JSON_parse line_Credits = Some (JObject [(str ''Credits'', JNumber 3 0)])"
  by (simp add: line_Credits_def parse_simps)

lemma parse_line_not_json: "JSON_parse line_not_json = None"
  by (simp add: line_not_json_def parse_simps)

lemma trim_nonblank: "l \<noteq> [] \<Longrightarrow> \<not> js_whitespace (hd l) \<Longrightarrow> trim l \<noteq> []"
  by (cases l) (simp_all add: trim_def)

lemma lines_nonblank:
  "trim line_Hel \<noteq> []" "trim line_lo \<noteq> []" "trim line_Credits \<noteq> []"
  "trim line_not_json \<noteq> []"
  by (rule trim_nonblank; simp add: line_Hel_def line_lo_def line_Credits_def
        line_not_json_def str_def js_whitespace_def)+

lemma lines_no_newline:
  "10 \<notin> set line_Hel" "10 \<notin> set line_lo" "10 \<notin> set line_Credits" "10 \<notin> set line_not_json"
  by (simp_all add: line_Hel_def line_lo_def line_Credits_def line_not_json_def str_def)

lemma process_line_blank [simp]: "process_line [] rs = rs"
  by (simp add: process_line_def trim_def)

lemma process_lines_append:
  "process_lines (xs @ ys) rs = process_lines ys (process_lines xs rs)"
  by (induction xs arbitrary: rs) simp_all

lemma process_line_content:
  assumes "JSON_parse line
      = Some (JObject [(str ''message'', JObject [(str ''content'', JString t)])])"
    and "t \<noteq> []" and "trim line \<noteq> []" and "handledModel r = JString []"
  shows "process_line line (r, s) =
     (r\<lparr>assistantMessage := assistantMessage r @ t,
        messageElement := messageElement r \<or> messagesContainer s\<rparr>,
      if messageElement r then updateMessageContent (assistantMessage r @ t) s
      else if messagesContainer s
        then log (AddMessage (str ''assistant'') (assistantMessage r @ t) (Some (JString [])))
               (showTypingIndicator False s)
        else showTypingIndicator False s)"
  using assms
  by (simp add: process_line_def try_line_def regular_message_def render_def addMessage_def
      showTypingIndicator_def str_def)

lemma process_line_Credits:
  "process_line line_Credits (r, s) = (r, updateStatus (str ''Credits used: 3'') s)"
  by (simp add: process_line_def try_line_def lines_nonblank parse_line_Credits
      number_to_string_def dec_digit)
     (simp add: str_def)

lemma process_line_not_json:
  "process_line line_not_json (r, s) =
     (r, log (ConsoleWarn (str ''Error parsing streaming response:'') [line_not_json]) s)"
  by (simp add: process_line_def try_line_def lines_nonblank parse_line_not_json)

lemma split_nonempty [simp]: "split sep s \<noteq> []"
  by (induction s) (auto split: list.splits)

lemma split_append_sep: "split sep (a @ sep # b) = split sep a @ split sep b"
proof (induction a)
  case Nil
  show ?case by simp
next
  case (Cons c a)
  then show ?case
    by (cases "split sep a") (auto split: list.splits)
qed

lemma split_no_sep: "sep \<notin> set l \<Longrightarrow> split sep l = [l]"
  by (induction l) auto

lemma split_lines_text:
  "(\<forall>l \<in> set ls. 10 \<notin> set l) \<Longrightarrow> split 10 (lines_text ls) = ls @ [[]]"
proof (induction ls)
  case Nil
  show ?case by (simp add: lines_text_def)
next
  case (Cons l ls)
  then have "split 10 (lines_text ls) = ls @ [[]]" by simp
  moreover have "lines_text (l # ls) = l @ 10 # lines_text ls"
    by (simp add: lines_text_def)
  ultimately show ?case
    using Cons.prems by (simp add: split_append_sep split_no_sep)
qed

lemma status_notices_log [simp]:
  "status_notices (log ev s) =
     status_notices s @ (case ev of UpdateStatus msg \<Rightarrow> [msg] | _ \<Rightarrow> [])"
  by (cases ev) (simp_all add: status_notices_def log_def)

lemma parse_warnings_log [simp]:
  "parse_warnings (log ev s) =
     parse_warnings s @
       (case ev of
          ConsoleWarn label args \<Rightarrow>
            if label = str ''Error parsing streaming response:'' then [args] else []
        | _ \<Rightarrow> [])"
  by (cases ev) (simp_all add: parse_warnings_def log_def)

lemma views_history_update [simp]:
  "status_notices (s\<lparr>conversationHistory := h\<rparr>) = status_notices s"
  "parse_warnings (s\<lparr>conversationHistory := h\<rparr>) = parse_warnings s"
  by (simp_all add: status_notices_def parse_warnings_def)

lemma views_save [simp]:
  "status_notices (saveConversationToStorage s) = status_notices s"
  "parse_warnings (saveConversationToStorage s) = parse_warnings s"
  by (simp_all add: saveConversationToStorage_def)
     (simp_all add: status_notices_def parse_warnings_def str_def)

lemma process_line_Hel:
  "handledModel r = JString [] \<Longrightarrow>
   process_line line_Hel (r, s) =
     (r\<lparr>assistantMessage := assistantMessage r @ str ''Hel'',
        messageElement := messageElement r \<or> messagesContainer s\<rparr>,
      if messageElement r then updateMessageContent (assistantMessage r @ str ''Hel'') s
      else if messagesContainer s
        then log (AddMessage (str ''assistant'') (assistantMessage r @ str ''Hel'')
                    (Some (JString [])))
               (showTypingIndicator False s)
        else showTypingIndicator False s)"
  by (rule process_line_content[OF parse_line_Hel _ lines_nonblank(1)]) (simp_all add: str_def)

lemma process_line_lo:
  "handledModel r = JString [] \<Longrightarrow>
   process_line line_lo (r, s) =
     (r\<lparr>assistantMessage := assistantMessage r @ str ''lo'',
        messageElement := messageElement r \<or> messagesContainer s\<rparr>,
      if messageElement r then updateMessageContent (assistantMessage r @ str ''lo'') s
      else if messagesContainer s
        then log (AddMessage (str ''assistant'') (assistantMessage r @ str ''lo'')
                    (Some (JString [])))
               (showTypingIndicator False s)
        else showTypingIndicator False s)"
  by (rule process_line_content[OF parse_line_lo _ lines_nonblank(2)]) (simp_all add: str_def)

lemma readStreamChunk_values:
  "readStreamChunk (map Value chunks) rs
     = (Return (), fold (\<lambda>c. process_lines (split 10 c)) chunks rs)"
  by (induction chunks arbitrary: rs) simp_all

lemma outcome_view_chunks:
  "outcome_view (ok_stream chunks) s =
     (case fold (\<lambda>c. process_lines (split 10 c)) chunks
             (new_reader, log (Fetch (buildRequest s)) s) of
        (r, s2) \<Rightarrow>
          (Return True,
           conversationHistory s @
             (if assistantMessage r \<noteq> []
              then [assistant_message (assistantMessage r) (handledModel r)] else []),
           status_notices s2, parse_warnings s2))"
proof -
  let ?s1 = "log (Fetch (buildRequest s)) s"
  obtain r s2 where p: "fold (\<lambda>c. process_lines (split 10 c)) chunks (new_reader, ?s1) = (r, s2)"
    by (cases "fold (\<lambda>c. process_lines (split 10 c)) chunks (new_reader, ?s1)")
  have rd: "readStreamChunk (map Value chunks) (new_reader, ?s1) = (Return (), r, s2)"
    using p by (simp add: readStreamChunk_values)
  have h: "conversationHistory s2 = conversationHistory s"
    using only_logs_fields(1)[OF readStreamChunk_frame[OF rd]] by simp
  show ?thesis
    using hSR_stream[of "Response True None (Some (map Value chunks))" _ s r s2] rd
    by (simp add: outcome_view_def ok_stream_def p h assistant_message_def)
qed

lemma outcome_view_lines:
  assumes "\<forall>l \<in> set ls. 10 \<notin> set l"
  shows "outcome_view (ok_stream [lines_text ls]) s =
     (case process_lines ls (new_reader, log (Fetch (buildRequest s)) s) of
        (r, s2) \<Rightarrow>
          (Return True,
           conversationHistory s @
             (if assistantMessage r \<noteq> []
              then [assistant_message (assistantMessage r) (handledModel r)] else []),
           status_notices s2, parse_warnings s2))"
  by (simp add: outcome_view_chunks split_lines_text[OF assms] process_lines_append)

lemmas example_line_simps =
  process_line_Hel process_line_lo process_line_Credits process_line_not_json
  new_reader_def updateStatus_def showTypingIndicator_def updateMessageContent_def






lemma process_line_unparsed:
  assumes "JSON_parse line = None" and "trim line \<noteq> []"
  shows "process_line line (r, s) =
     (r, log (ConsoleWarn (str ''Error parsing streaming response:'') [line]) s)"
  using assms by (simp add: process_line_def try_line_def)

lemma fragments_unparsed: "JSON_parse fragment_1 = None" "JSON_parse fragment_2 = None"
  by (simp_all add: fragment_1_def fragment_2_def parse_simps)

lemma parse_line_Hello:
  "JSON_parse line_Hello
     = Some (JObject [(str ''message'', JObject [(str ''content'', JString (str ''Hello''))])])"
  by (simp add: line_Hello_def parse_simps)

lemma fragments_nonblank:
  "trim fragment_1 \<noteq> []" "trim fragment_2 \<noteq> []" "trim line_Hello \<noteq> []"
  by (rule trim_nonblank; simp add: fragment_1_def fragment_2_def line_Hello_def str_def
        js_whitespace_def)+

lemma fragments_no_newline:
  "10 \<notin> set fragment_1" "10 \<notin> set fragment_2" "10 \<notin> set line_Hello"
  by (simp_all add: fragment_1_def fragment_2_def line_Hello_def str_def)

lemma process_line_Hello:
  "handledModel r = JString [] \<Longrightarrow>
   process_line line_Hello (r, s) =
     (r\<lparr>assistantMessage := assistantMessage r @ str ''Hello'',
        messageElement := messageElement r \<or> messagesContainer s\<rparr>,
      if messageElement r then updateMessageContent (assistantMessage r @ str ''Hello'') s
      else if messagesContainer s
        then log (AddMessage (str ''assistant'') (assistantMessage r @ str ''Hello'')
                    (Some (JString [])))
               (showTypingIndicator False s)
        else showTypingIndicator False s)"
  by (rule process_line_content[OF parse_line_Hello _ fragments_nonblank(3)])
     (simp_all add: str_def)

lemma aligned_join:
  assumes "line_aligned c"
  shows "process_lines (split 10 d) (process_lines (split 10 c) rs)
     = process_lines (split 10 (c @ d)) rs"
proof (cases "c = []")
  case True
  then show ?thesis by simp
next
  case False
  with assms obtain a where c: "c = a @ [10]"
    unfolding line_aligned_def by (metis append_butlast_last_id)
  have "split 10 c = split 10 a @ [[]]"
    using split_append_sep[of 10 a "[]"] by (simp add: c)
  moreover have "split 10 (c @ d) = split 10 a @ split 10 d"
    using split_append_sep[of 10 a d] by (simp add: c)
  ultimately show ?thesis
    by (simp add: process_lines_append)
qed

lemma aligned_fold:
  assumes "\<forall>c \<in> set (butlast chunks). line_aligned c"
  shows "fold (\<lambda>c. process_lines (split 10 c)) chunks rs
     = process_lines (split 10 (concat chunks)) rs"
  using assms
proof (induction chunks arbitrary: rs)
  case Nil
  show ?case by simp
next
  case (Cons c chunks)
  show ?case
  proof (cases "chunks = []")
    case True
    then show ?thesis by simp
  next
    case False
    with Cons.prems have al: "line_aligned c"
      and rest: "\<forall>c \<in> set (butlast chunks). line_aligned c" by simp_all
    show ?thesis
      using Cons.IH[OF rest] aligned_join[OF al] by simp
  qed
qed


lemma only_logs_trace: "only_logs s t \<Longrightarrow> \<exists>evs. trace t = trace s @ evs"
  by (auto simp: only_logs_def)

lemma hSR_trace_fetch:
  "\<exists>evs. trace (snd (handleStreamingResponse fr s)) = trace s @ Fetch (buildRequest s) # evs"
proof -
  let ?s1 = "log (Fetch (buildRequest s)) s"
  have "\<exists>evs. trace (snd (handleStreamingResponse fr s)) = trace ?s1 @ evs"
  proof (cases fr)
    case Rejected
    then show ?thesis by (simp add: hSR_rejected)
  next
    case (Resolved resp)
    show ?thesis
    proof (cases "ok resp")
      case False
      then show ?thesis
        using Resolved
        by (auto simp: handleStreamingResponse_def Let_def addMessage_def split: option.splits)
    next
      case True
      show ?thesis
      proof (cases "response_body resp")
        case None
        with True Resolved show ?thesis by (simp add: hSR_no_body)
      next
        case (Some reads)
        obtain c r s2 where rd: "readStreamChunk reads (new_reader, ?s1) = (c, r, s2)"
          by (metis prod_cases3)
        obtain evs where evs: "trace s2 = trace ?s1 @ evs"
          using only_logs_trace[OF readStreamChunk_frame[OF rd]] by blast
        show ?thesis
        proof (cases c)
          case (Throw err)
          with hSR_stream_throws[OF True Some, of s err r s2] rd evs Resolved
          show ?thesis by simp
        next
          case (Return u)
          with hSR_stream[OF True Some, of s r s2] rd evs Resolved
          show ?thesis by (simp add: saveConversationToStorage_def log_def)
        qed
      qed
    qed
  qed
  then show ?thesis by simp
qed

section \<open>The text of a stream and the settled exchange\<close>

lemma same_text_refl [simp]: "same_text r r"
  by (simp add: same_text_def)

lemma render_same_text:
  "same_text r r' \<Longrightarrow> same_text (fst (snd (render r s))) (fst (snd (render r' t)))"
  by (simp add: render_def same_text_def split: prod.splits completion.splits)

lemma regular_message_same_text:
  assumes "same_text r r'"
  shows "same_text (fst (snd (regular_message data r s))) (fst (snd (regular_message data r' t)))"
proof -
  have "same_text (r\<lparr>assistantMessage := assistantMessage r @ x\<rparr>)
      (r'\<lparr>assistantMessage := assistantMessage r' @ x\<rparr>)" for x
    using assms by (simp add: same_text_def)
  then show ?thesis
    using assms by (simp add: regular_message_def render_same_text split: option.splits)
qed

lemma try_line_same_text:
  assumes "same_text r r'"
  shows "same_text (fst (snd (try_line line r s))) (fst (snd (try_line line r' t)))"
proof -
  have "same_text (r\<lparr>handledModel := m\<rparr>) (r'\<lparr>handledModel := m\<rparr>)" for m
    using assms by (simp add: same_text_def)
  then show ?thesis
    using assms by (simp add: try_line_def regular_message_same_text split: option.splits)
qed

lemma process_line_same_text:
  assumes "same_text (fst rs) (fst rs')"
  shows "same_text (fst (process_line line rs)) (fst (process_line line rs'))"
  using try_line_same_text[OF assms, of line "snd rs" "snd rs'"] assms
  by (auto simp: process_line_def split: prod.splits option.splits)

lemma process_lines_same_text:
  "same_text (fst rs) (fst rs') \<Longrightarrow>
   same_text (fst (process_lines lines rs)) (fst (process_lines lines rs'))"
  by (induction lines arbitrary: rs rs') (simp_all add: process_line_same_text)

lemma readStreamChunk_same_text:
  "same_text (fst rs) (fst rs') \<Longrightarrow>
   fst (readStreamChunk reads rs) = fst (readStreamChunk reads rs')
   \<and> same_text (fst (snd (readStreamChunk reads rs))) (fst (snd (readStreamChunk reads rs')))"
proof (induction reads arbitrary: rs rs')
  case Nil
  then show ?case by simp
next
  case (Cons ev reads)
  show ?case
  proof (cases ev)
    case ReadRejects
    with Cons.prems show ?thesis by simp
  next
    case (Value decoded)
    with Cons.IH[OF process_lines_same_text[OF Cons.prems, of "split 10 decoded"]]
    show ?thesis by simp
  qed
qed

text \<open>The text a stream accumulates does not depend on the page it is read on.\<close>

lemma stream_text_anywhere:
  assumes "readStreamChunk reads (new_reader, s0) = (Return (), r, s0')"
  shows "\<exists>r2 t2. readStreamChunk reads (new_reader, t) = (Return (), r2, t2)
     \<and> assistantMessage r2 = assistantMessage r \<and> handledModel r2 = handledModel r"
proof -
  obtain c r2 t2 where rd: "readStreamChunk reads (new_reader, t) = (c, r2, t2)"
    by (metis prod_cases3)
  have "fst (readStreamChunk reads (new_reader, t)) = fst (readStreamChunk reads (new_reader, s0))
     \<and> same_text (fst (snd (readStreamChunk reads (new_reader, t))))
          (fst (snd (readStreamChunk reads (new_reader, s0))))"
    by (rule readStreamChunk_same_text) simp
  with rd assms show ?thesis
    by (simp add: same_text_def)
qed

text \<open>The attempt that settles the exchange, after failed ones: an ok response whose
  stream is read to the end, or a redirect.\<close>

lemma sendMessage_stream:
  assumes nb: "trim (messageInput_value s) \<noteq> []"
    and k: "k = 1 \<or> k = 2 \<or> k = 3"
    and f: "\<forall>i. 1 \<le> i \<and> i < k \<longrightarrow> server_failure (net i)"
    and n: "net k = Resolved resp" and ok: "ok resp" and b: "response_body resp = Some reads"
    and rd: "readStreamChunk reads (new_reader, s0) = (Return (), r, s0')"
  shows "fst (sendMessage net s) = Return ()
     \<and> conversationHistory (snd (sendMessage net s)) =
         conversationHistory s @ user_message (trim (messageInput_value s)) #
           (if assistantMessage r = [] then []
            else [assistant_message (assistantMessage r) (handledModel r)])"
proof -
  let ?s0 = "disable_input (appended s)"
  obtain sk where sk: "only_logs ?s0 sk"
    and r1: "handleStreamingResponseWithRetry net 1 ?s0
               = handleStreamingResponseWithRetry net k sk"
    using retry_reaches[OF k f, of ?s0] by blast
  have nf: "\<not> server_failure (net k)"
    using n ok by (simp add: server_failure_def)
  obtain r2 t2 where rd2:
    "readStreamChunk reads (new_reader, log (Fetch (buildRequest sk)) sk) = (Return (), r2, t2)"
    and tx: "assistantMessage r2 = assistantMessage r" "handledModel r2 = handledModel r"
    using stream_text_anywhere[OF rd, of "log (Fetch (buildRequest sk)) sk"] by blast
  have h2: "conversationHistory t2
      = conversationHistory s @ [user_message (trim (messageInput_value s))]"
    using only_logs_fields(1)[OF readStreamChunk_frame[OF rd2]] only_logs_fields(1)[OF sk]
    by simp
  define final where "final =
     (if assistantMessage r2 \<noteq> [] then
        saveConversationToStorage
          (t2\<lparr>conversationHistory := conversationHistory t2 @
               [\<lparr>role = str ''assistant'', content = assistantMessage r2,
                 model = Some (handledModel r2)\<rparr>]\<rparr>)
      else t2)"
  have "handleStreamingResponseWithRetry net 1 ?s0 = (Return True, final)"
    using r1 retry_settled[of net k sk] nf hSR_stream[OF ok b rd2] n
    by (simp add: final_def)
  then have sm: "sendMessage net s = (Return (), enable_input final)"
    by (simp only: sendMessage_nonblank[OF nb] sendWrapper_success)
  show ?thesis
    by (simp add: sm final_def h2 tx assistant_message_def)
qed

lemma sendMessage_redirect:
  assumes nb: "trim (messageInput_value s) \<noteq> []"
    and k: "k = 1 \<or> k = 2 \<or> k = 3"
    and f: "\<forall>i. 1 \<le> i \<and> i < k \<longrightarrow> server_failure (net i)"
    and n: "net k = Resolved resp" and ok: "\<not> ok resp"
    and l: "location_header resp = Some loc" "loc \<noteq> []"
  shows "fst (sendMessage net s) = Return ()
     \<and> conversationHistory (snd (sendMessage net s)) =
         conversationHistory s @ [user_message (trim (messageInput_value s))]"
proof -
  let ?s0 = "disable_input (appended s)"
  obtain sk where sk: "only_logs ?s0 sk"
    and r1: "handleStreamingResponseWithRetry net 1 ?s0
               = handleStreamingResponseWithRetry net k sk"
    using retry_reaches[OF k f, of ?s0] by blast
  have nf: "\<not> server_failure (net k)"
    using n ok l by (simp add: server_failure_def)
  obtain final where fin: "handleStreamingResponse (Resolved resp) sk = (Return True, final)"
    and hf: "conversationHistory final = conversationHistory sk"
    using hSR_redirect[OF ok l, of sk] by simp
  have "handleStreamingResponseWithRetry net 1 ?s0 = (Return True, final)"
    using r1 retry_settled[of net k sk] nf fin n by simp
  then have sm: "sendMessage net s = (Return (), enable_input final)"
    by (simp only: sendMessage_nonblank[OF nb] sendWrapper_success)
  show ?thesis
    using only_logs_fields(1)[OF sk] by (simp add: sm hf)
qed

section \<open>Retry delays\<close>

text \<open>
  Claim C4.  With the base delay of 1000 ms and the ceiling of 3 attempts, when the three
  attempts fail the program does exactly this, in this order: the first request, a wait
  of 1000 ms, the second request, a wait of 2000 ms, the third request, and then no further
  request; it returns \<open>false\<close>.  The two waits are \<open>RETRY_DELAY * 2 ^ (attempt - 1)\<close> for the
  attempts 1 and 2.
\<close>

theorem backoff_trace:
  assumes "server_failure (net 1)" and "server_failure (net 2)" and "server_failure (net 3)"
  shows "fst (handleStreamingResponseWithRetry net 1 s) = Return False \<and>
     trace (snd (handleStreamingResponseWithRetry net 1 s)) = trace s @
       [Fetch (buildRequest s),
        UpdateStatus (str ''Request failed, retrying in 1s... (1/3)''),
        Sleep (RETRY_DELAY * 2 ^ (1 - 1)),
        Fetch (buildRequest s),
        UpdateStatus (str ''Request failed, retrying in 2s... (2/3)''),
        Sleep (RETRY_DELAY * 2 ^ (2 - 1)),
        Fetch (buildRequest s),
        UpdateStatus (str ''Request failed after maximum retries'')]
     \<and> RETRY_DELAY * 2 ^ (1 - 1) = 1000 \<and> RETRY_DELAY * 2 ^ (2 - 1) = 2000"
  unfolding retry_first[of net, OF assms(1)] retry_second[of net, OF assms(2)]
    retry_third[of net, OF assms(3)]
  by (simp add: sleep_def updateStatus_def RETRY_DELAY_def)

theorem backoff_trace_witness:
  "server_failure (always (Resolved (Response False None None)) 1)
   \<and> fst (handleStreamingResponseWithRetry (always (Resolved (Response False None None))) 1
            (page [user_message (str ''hi'')] [])) = Return False
   \<and> filter (\<lambda>ev. case ev of Sleep ms \<Rightarrow> True | _ \<Rightarrow> False)
        (trace (snd (handleStreamingResponseWithRetry
           (always (Resolved (Response False None None))) 1
           (page [user_message (str ''hi'')] [])))) = [Sleep 1000, Sleep 2000]"
  using backoff_trace[of "always (Resolved (Response False None None))"
      "page [user_message (str ''hi'')] []"]
  by (simp add: always_def server_failure_def page_def)

section \<open>Authentication redirect\<close>

text \<open>
  Claim C2.  A response that is not ok and carries a \<open>Location\<close> header with a non-empty
  value ends the exchange at once: the retry loop returns \<open>true\<close>, having sent one
  request, shown the redirect notice and assigned the address; it waits for no delay and
  sends nothing more.  When the attempts before it have failed (or it is the first),
  \<open>sendWrapper\<close> returns normally and leaves the conversation and the stored conversation
  as they were, the pending user message included.
\<close>

theorem auth_redirect_no_retry:
  assumes "net n = Resolved resp" and "\<not> ok resp"
    and "location_header resp = Some loc" and "loc \<noteq> []"
  shows "handleStreamingResponseWithRetry net n s =
       (Return True,
        s\<lparr>href := Some loc,
          trace := trace s @ Fetch (buildRequest s) #
            (if messagesContainer s
             then [AddMessage (str ''system'') (str ''Redirecting to authenticate...'') None]
             else [])\<rparr>)
     \<and> (n = 1 \<or> n = 2 \<or> n = 3 \<longrightarrow> (\<forall>i. 1 \<le> i \<and> i < n \<longrightarrow> server_failure (net i)) \<longrightarrow>
          fst (sendWrapper net s) = Return ()
          \<and> conversationHistory (snd (sendWrapper net s)) = conversationHistory s
          \<and> localStorage (snd (sendWrapper net s)) = localStorage s
          \<and> href (snd (sendWrapper net s)) = Some loc)"
proof -
  have nf: "\<not> server_failure (net n)"
    using assms by (simp add: server_failure_def)
  have one: "handleStreamingResponseWithRetry net n t =
       (Return True,
        t\<lparr>href := Some loc,
          trace := trace t @ Fetch (buildRequest t) #
            (if messagesContainer t
             then [AddMessage (str ''system'') (str ''Redirecting to authenticate...'') None]
             else [])\<rparr>)" for t
    using retry_settled[of net n t] nf hSR_redirect[OF assms(2,3,4), of t] assms(1)
    by (simp add: log_def)
  have two: "fst (sendWrapper net s) = Return ()
          \<and> conversationHistory (snd (sendWrapper net s)) = conversationHistory s
          \<and> localStorage (snd (sendWrapper net s)) = localStorage s
          \<and> href (snd (sendWrapper net s)) = Some loc"
    if k: "n = 1 \<or> n = 2 \<or> n = 3" and f: "\<forall>i. 1 \<le> i \<and> i < n \<longrightarrow> server_failure (net i)"
  proof -
    obtain sk where sk: "only_logs (disable_input s) sk"
      and r: "handleStreamingResponseWithRetry net 1 (disable_input s)
               = handleStreamingResponseWithRetry net n sk"
      using retry_reaches[OF k f, of "disable_input s"] by blast
    show ?thesis
      using sendWrapper_success[of net s, unfolded r one[of sk], OF refl]
        only_logs_fields(1,3)[OF sk]
      by simp
  qed
  show ?thesis using one[of s] two by blast
qed

theorem auth_redirect_no_retry_witness:
  "after_failures 1 (Resolved (Response False (Some (str ''/login'')) None)) 2
      = Resolved (Response False (Some (str ''/login'')) None)
   \<and> server_failure (after_failures 1 (Resolved (Response False (Some (str ''/login'')) None)) 1)
   \<and> handleStreamingResponseWithRetry
       (after_failures 1 (Resolved (Response False (Some (str ''/login'')) None))) 2
       (page [user_message (str ''hi'')] [])
     = (Return True,
        (page [user_message (str ''hi'')] [])
          \<lparr>href := Some (str ''/login''),
           trace := [Fetch (buildRequest (page [user_message (str ''hi'')] [])),
             AddMessage (str ''system'') (str ''Redirecting to authenticate...'') None]\<rparr>)
   \<and> fst (sendWrapper
         (after_failures 1 (Resolved (Response False (Some (str ''/login'')) None)))
         (page [user_message (str ''hi'')] [])) = Return ()
   \<and> conversationHistory (snd (sendWrapper
         (after_failures 1 (Resolved (Response False (Some (str ''/login'')) None)))
         (page [user_message (str ''hi'')] []))) = [user_message (str ''hi'')]"
proof -
  let ?net = "after_failures 1 (Resolved (Response False (Some (str ''/login'')) None))"
  have f: "\<forall>i. 1 \<le> i \<and> i < 2 \<longrightarrow> server_failure (?net i)"
    by (simp add: after_failures_def server_failure_def)
  have g: "?net 2 = Resolved (Response False (Some (str ''/login'')) None)"
    "server_failure (?net 1)"
    by (simp_all add: after_failures_def server_failure_def)
  have l: "str ''/login'' \<noteq> []"
    by (simp add: str_def)
  show ?thesis
    using auth_redirect_no_retry[of ?net 2 "Response False (Some (str ''/login'')) None"
        "str ''/login''" "page [user_message (str ''hi'')] []", OF g(1) _ _ l] f g
    by (simp add: page_def)
qed

section \<open>Rollback and completion\<close>

text \<open>
  Claim C1, amended.  An exchange starts when \<open>sendMessage\<close> finds text in the input and
  appends the user entry.

  If the three attempts fail, \<open>sendMessage\<close> returns normally and the conversation is
  exactly the one before the send: the user entry, and nothing else, has been removed.

  If the attempt that follows the failed ones (the first, second or third) gets an ok
  response whose stream is read to the end, \<open>sendMessage\<close> returns normally and the
  conversation is the old one, the user entry, and then exactly one assistant entry
  holding the text the stream accumulates and the model it names, when that text is not
  empty, and nothing when it is empty.  The text and the model are those of the reader
  \<open>r\<close> after reading the stream on any page \<open>s0\<close>.

  If that attempt gets a redirect, \<open>sendMessage\<close> returns normally and the conversation
  is the old one and the user entry.

  In every exchange that does not exhaust its attempts and returns normally, the
  conversation has one of these two shapes.
\<close>

theorem exchange_outcomes:
  assumes "trim (messageInput_value s) \<noteq> []"
  shows "(server_failure (net 1) \<and> server_failure (net 2) \<and> server_failure (net 3) \<longrightarrow>
            fst (sendMessage net s) = Return ()
            \<and> conversationHistory (snd (sendMessage net s)) = conversationHistory s)
     \<and> ((k = 1 \<or> k = 2 \<or> k = 3) \<and> (\<forall>i. 1 \<le> i \<and> i < k \<longrightarrow> server_failure (net i))
          \<and> net k = Resolved resp \<and> ok resp \<and> response_body resp = Some reads
          \<and> readStreamChunk reads (new_reader, s0) = (Return (), r, s0') \<longrightarrow>
            fst (sendMessage net s) = Return ()
            \<and> conversationHistory (snd (sendMessage net s)) =
                conversationHistory s @ user_message (trim (messageInput_value s)) #
                  (if assistantMessage r = [] then []
                   else [assistant_message (assistantMessage r) (handledModel r)]))
     \<and> ((k = 1 \<or> k = 2 \<or> k = 3) \<and> (\<forall>i. 1 \<le> i \<and> i < k \<longrightarrow> server_failure (net i))
          \<and> net k = Resolved resp \<and> \<not> ok resp \<and> location_header resp = Some loc
          \<and> loc \<noteq> [] \<longrightarrow>
            fst (sendMessage net s) = Return ()
            \<and> conversationHistory (snd (sendMessage net s)) =
                conversationHistory s @ [user_message (trim (messageInput_value s))])
     \<and> (\<not> (server_failure (net 1) \<and> server_failure (net 2) \<and> server_failure (net 3))
          \<and> fst (sendMessage net s) = Return () \<longrightarrow>
            conversationHistory (snd (sendMessage net s)) =
              conversationHistory s @ [user_message (trim (messageInput_value s))]
            \<or> (\<exists>t mdl. t \<noteq> [] \<and>
                 conversationHistory (snd (sendMessage net s)) =
                   conversationHistory s @
                     [user_message (trim (messageInput_value s)),
                      \<lparr>role = str ''assistant'', content = t, model = Some mdl\<rparr>]))"
proof -
  have shapes:
    "(server_failure (net 1) \<and> server_failure (net 2) \<and> server_failure (net 3) \<longrightarrow>
            fst (sendMessage net s) = Return ()
            \<and> conversationHistory (snd (sendMessage net s)) = conversationHistory s)
     \<and> (\<not> (server_failure (net 1) \<and> server_failure (net 2) \<and> server_failure (net 3))
          \<and> fst (sendMessage net s) = Return () \<longrightarrow>
            conversationHistory (snd (sendMessage net s)) =
              conversationHistory s @ [user_message (trim (messageInput_value s))]
            \<or> (\<exists>t mdl. t \<noteq> [] \<and>
                 conversationHistory (snd (sendMessage net s)) =
                   conversationHistory s @
                     [user_message (trim (messageInput_value s)),
                      \<lparr>role = str ''assistant'', content = t, model = Some mdl\<rparr>]))"
  proof -
    let ?s0 = "disable_input (appended s)"
    let ?u = "user_message (trim (messageInput_value s))"
    obtain c s1 where r: "handleStreamingResponseWithRetry net 1 ?s0 = (c, s1)"
      by (cases "handleStreamingResponseWithRetry net 1 ?s0")
    have sm: "sendMessage net s = sendWrapper net (appended s)"
      using assms by (rule sendMessage_nonblank)
    have h0: "conversationHistory ?s0 = conversationHistory s @ [?u]" by simp
    show ?thesis
    proof (cases c)
      case (Throw err)
      with r sendWrapper_throw[of net "appended s" err s1]
        retry_exhausted_iff[of net ?s0] show ?thesis
        by (simp add: sm)
    next
      case (Return success)
      show ?thesis
      proof (cases success)
        case False
        with Return r have rf: "handleStreamingResponseWithRetry net 1 ?s0 = (Return False, s1)"
          by simp
        have h1: "conversationHistory s1 = conversationHistory s @ [?u]"
          using only_logs_fields(1)[OF retry_False_frame[OF rf]] h0 by simp
        have ex: "server_failure (net 1) \<and> server_failure (net 2) \<and> server_failure (net 3)"
          using retry_exhausted_iff[of net ?s0] rf by simp
        show ?thesis
          using sendWrapper_failure[OF rf] ex h1
          by (simp add: sm user_message_def)
      next
        case True
        with Return r have rt: "handleStreamingResponseWithRetry net 1 ?s0 = (Return True, s1)"
          by simp
        have ex: "\<not> (server_failure (net 1) \<and> server_failure (net 2) \<and> server_failure (net 3))"
          using retry_exhausted_iff[of net ?s0] rt by simp
        show ?thesis
          using sendWrapper_success[OF rt] ex retry_True_history[OF rt] h0
          by (auto simp: sm)
      qed
    qed
  qed
  show ?thesis
    using shapes sendMessage_stream[OF assms, of k net resp reads s0 r s0']
      sendMessage_redirect[OF assms, of k net resp loc]
    by blast
qed

text \<open>The claim as stated fails: a response that is ok and whose stream ends without any
  text is a success, and no assistant entry is appended.\<close>

theorem exchange_outcomes_counterexample:
  "fst (handleStreamingResponseWithRetry (always (Resolved (Response True None (Some [])))) 1
          (disable_input (appended (page [] (str ''hi''))))) = Return True
   \<and> fst (sendMessage (always (Resolved (Response True None (Some []))))
          (page [] (str ''hi''))) = Return ()
   \<and> conversationHistory
        (snd (sendMessage (always (Resolved (Response True None (Some []))))
          (page [] (str ''hi'')))) = [user_message (str ''hi'')]"
proof -
  let ?net = "always (Resolved (Response True None (Some [])))"
  have t: "trim (messageInput_value (page [] (str ''hi''))) = str ''hi''"
    by (simp add: page_def trim_def js_whitespace_def str_def)
  have nf: "\<not> server_failure (?net 1)"
    by (simp add: always_def server_failure_def)
  have r: "handleStreamingResponseWithRetry ?net 1 t
             = (Return True, log (Fetch (buildRequest t)) t)" for t
    using retry_settled[of ?net 1 t] nf hSR_stream[of "Response True None (Some [])" "[]" t]
    by (simp add: always_def new_reader_def)
  have sm: "sendMessage ?net (page [] (str ''hi'')) = sendWrapper ?net (appended (page [] (str ''hi'')))"
    by (rule sendMessage_nonblank) (simp only: t, simp add: str_def)
  have c1: "fst (handleStreamingResponseWithRetry ?net 1
      (disable_input (appended (page [] (str ''hi''))))) = Return True"
    by (simp only: r fst_conv)
  have c2: "sendMessage ?net (page [] (str ''hi'')) =
      (Return (), enable_input (log (Fetch (buildRequest (disable_input (appended (page [] (str ''hi''))))))
         (disable_input (appended (page [] (str ''hi''))))))"
    by (simp only: sm sendWrapper_success[OF r])
  have c3: "conversationHistory (snd (sendMessage ?net (page [] (str ''hi''))))
      = [user_message (str ''hi'')]"
    unfolding c2 by (simp add: t) (simp add: page_def)
  show ?thesis
    using c1 c2 c3 by (simp only: fst_conv simp_thms)
qed

theorem exchange_outcomes_witness:
  "trim (messageInput_value (page [] (str ''hi''))) \<noteq> []
   \<and> server_failure (always (Resolved (Response False None None)) 1)
   \<and> fst (sendMessage (always (Resolved (Response False None None))) (page [] (str ''hi'')))
       = Return ()
   \<and> conversationHistory
        (snd (sendMessage (always (Resolved (Response False None None))) (page [] (str ''hi''))))
       = []
   \<and> server_failure
        (after_failures 1 (ok_stream [lines_text [line_Hel, line_lo, line_Credits]]) 1)
   \<and> fst (sendMessage
          (after_failures 1 (ok_stream [lines_text [line_Hel, line_lo, line_Credits]]))
          (page [] (str ''hi''))) = Return ()
   \<and> conversationHistory
        (snd (sendMessage
          (after_failures 1 (ok_stream [lines_text [line_Hel, line_lo, line_Credits]]))
          (page [] (str ''hi''))))
       = [user_message (str ''hi''), assistant_message (str ''Hello'') (JString [])]
   \<and> fst (sendMessage (always (Resolved (Response False (Some (str ''/login'')) None)))
          (page [] (str ''hi''))) = Return ()
   \<and> conversationHistory
        (snd (sendMessage (always (Resolved (Response False (Some (str ''/login'')) None)))
          (page [] (str ''hi''))))
       = [user_message (str ''hi'')]"
proof -
  let ?P = "page [] (str ''hi'')"
  let ?F = "always (Resolved (Response False None None))"
  let ?T = "lines_text [line_Hel, line_lo, line_Credits]"
  let ?G = "after_failures 1 (ok_stream [?T])"
  let ?L = "always (Resolved (Response False (Some (str ''/login'')) None))"
  let ?run = "readStreamChunk [Value ?T] (new_reader, page [] [])"
  have t: "trim (messageInput_value ?P) = str ''hi''"
    by (simp add: page_def trim_def js_whitespace_def str_def)
  have nb: "trim (messageInput_value ?P) \<noteq> []"
    by (simp only: t, simp add: str_def)
  have h: "conversationHistory ?P = []"
    by (simp add: page_def)
  have f: "server_failure (?F 1)" "server_failure (?F 2)" "server_failure (?F 3)"
    by (simp_all add: always_def server_failure_def)
  have g: "\<forall>i. 1 \<le> i \<and> i < 2 \<longrightarrow> server_failure (?G i)" "server_failure (?G 1)"
    "?G 2 = Resolved (Response True None (Some [Value ?T]))"
    by (simp_all add: after_failures_def server_failure_def ok_stream_def)
  have l: "?L 1 = Resolved (Response False (Some (str ''/login'')) None)"
    "str ''/login'' \<noteq> []" "\<forall>i. 1 \<le> i \<and> i < (1::nat) \<longrightarrow> server_failure (?L i)"
    by (simp_all add: always_def str_def)
  define R where "R = fst (snd ?run)"
  define S' where "S' = snd (snd ?run)"
  have "fst ?run = Return ()" "assistantMessage (fst (snd ?run)) = str ''Hello''"
    "handledModel (fst (snd ?run)) = JString []"
    by (simp_all add: split_lines_text lines_no_newline example_line_simps page_def)
       (simp add: str_def)
  then have rd: "?run = (Return (), R, S')"
    and tx: "assistantMessage R = str ''Hello''" "handledModel R = JString []"
    by (simp_all add: prod_eq_iff R_def S'_def)
  have hello: "str ''Hello'' \<noteq> []"
    by (simp add: str_def)
  have a: "fst (sendMessage ?F ?P) = Return ()"
    "conversationHistory (snd (sendMessage ?F ?P)) = []"
    using exchange_outcomes[OF nb, of ?F] f by (simp_all add: h)
  have b: "fst (sendMessage ?G ?P) = Return ()"
    "conversationHistory (snd (sendMessage ?G ?P))
       = [user_message (str ''hi''), assistant_message (str ''Hello'') (JString [])]"
    using exchange_outcomes[OF nb, of ?G 2 "Response True None (Some [Value ?T])"
        "[Value ?T]" "page [] []" R S'] g rd
    by (simp_all add: h t tx hello)
  have c: "fst (sendMessage ?L ?P) = Return ()"
    "conversationHistory (snd (sendMessage ?L ?P)) = [user_message (str ''hi'')]"
    using exchange_outcomes[OF nb, of ?L 1 "Response False (Some (str ''/login'')) None"
        _ _ _ _ "str ''/login''"] l
    by (simp_all add: h t)
  show ?thesis
    using nb f(1) g(2) a b c by (simp only: simp_thms)
qed

section \<open>The example stream\<close>



section \<open>Chunk boundaries\<close>

text \<open>
  Claim C7 fails as stated.  The program parses every piece between line feeds of every
  chunk, the last piece included, and keeps no unfinished line for the next chunk.  When
  a chunk ends inside the record \<open>{"message":{"content":"Hello"}}\<close>, both pieces fail to
  parse: two warnings are logged, the text \<open>Hello\<close> is lost and no assistant entry is
  appended, whereas the same text in one chunk gives the entry \<open>Hello\<close> and no warning.
\<close>

theorem split_line_counterexample:
  "concat [fragment_1, fragment_2 @ [10]] = lines_text [line_Hello]
   \<and> outcome_view (ok_stream [lines_text [line_Hello]]) (page [user_message (str ''hi'')] [])
     = (Return True,
        [user_message (str ''hi''), assistant_message (str ''Hello'') (JString [])], [], [])
   \<and> outcome_view (ok_stream [fragment_1, fragment_2 @ [10]]) (page [user_message (str ''hi'')] [])
     = (Return True, [user_message (str ''hi'')], [], [[fragment_1], [fragment_2]])"
proof -
  have a: "concat [fragment_1, fragment_2 @ [10]] = lines_text [line_Hello]"
    by (simp add: fragment_1_def fragment_2_def line_Hello_def lines_text_def str_def)
  have v: "status_notices (page h i) = []" "parse_warnings (page h i) = []"
    "conversationHistory (page h i) = h" for h i
    by (simp_all add: page_def status_notices_def parse_warnings_def)
  have b: "outcome_view (ok_stream [lines_text [line_Hello]]) (page [user_message (str ''hi'')] [])
     = (Return True,
        [user_message (str ''hi''), assistant_message (str ''Hello'') (JString [])], [], [])"
    by (simp add: outcome_view_lines fragments_no_newline process_line_Hello
          new_reader_def showTypingIndicator_def updateMessageContent_def v)
       (simp add: str_def)
  have c: "outcome_view (ok_stream [fragment_1, fragment_2 @ [10]])
       (page [user_message (str ''hi'')] [])
     = (Return True, [user_message (str ''hi'')], [], [[fragment_1], [fragment_2]])"
    by (simp add: outcome_view_chunks split_no_sep fragments_no_newline
          split_append_sep[of 10 fragment_2 "[]", simplified]
          process_line_unparsed fragments_unparsed fragments_nonblank new_reader_def v)
  show ?thesis using a b c by (simp only: simp_thms)
qed

text \<open>
  Claim C7, amended.  The chunks are the texts the streaming decoder yields, so a character
  is never split between two of them.  When every chunk but the last is empty or ends with
  a line feed, the attempt returns the same result and leaves the same state, with the
  same events in the same order, as for the whole text delivered in one chunk: nothing is
  lost or duplicated, and no warning is added.
\<close>

theorem aligned_chunks:
  assumes "\<forall>c \<in> set (butlast chunks). line_aligned c"
  shows "handleStreamingResponse (ok_stream chunks) s
     = handleStreamingResponse (ok_stream [concat chunks]) s"
proof -
  let ?s1 = "log (Fetch (buildRequest s)) s"
  have "fold (\<lambda>c. process_lines (split 10 c)) chunks (new_reader, ?s1)
      = process_lines (split 10 (concat chunks)) (new_reader, ?s1)"
    using assms by (rule aligned_fold)
  then have "readStreamChunk (map Value chunks) (new_reader, ?s1)
      = readStreamChunk (map Value [concat chunks]) (new_reader, ?s1)"
    by (simp add: readStreamChunk_values)
  then show ?thesis
    by (simp add: handleStreamingResponse_def ok_stream_def Let_def)
qed

theorem aligned_chunks_witness:
  "line_aligned (line_Hel @ [10])
   \<and> handleStreamingResponse (ok_stream [line_Hel @ [10], line_lo @ [10]])
        (page [user_message (str ''hi'')] [])
     = handleStreamingResponse (ok_stream [line_Hel @ [10] @ line_lo @ [10]])
        (page [user_message (str ''hi'')] [])"
  using aligned_chunks[of "[line_Hel @ [10], line_lo @ [10]]" "page [user_message (str ''hi'')] []"]
  by (simp add: line_aligned_def)

section \<open>The history window\<close>

text \<open>
  Claim C5.  The \<open>messages\<close> of the request body are the entries of the window, which
  holds at most 20 entries and is a suffix of the conversation; when the conversation
  holds 20 entries or more, the window holds exactly the last 20, each at its place: the
  oldest of them first.  Every attempt sends this request before anything else.
\<close>

theorem history_window:
  "get_property (body (buildRequest s)) (str ''messages'')
       = Some (JArray (map message_json (recentHistory s)))
   \<and> length (recentHistory s) \<le> 20
   \<and> (\<exists>older. conversationHistory s = older @ recentHistory s)
   \<and> (20 \<le> length (conversationHistory s) \<longrightarrow>
        length (recentHistory s) = 20
        \<and> (\<forall>i<20. recentHistory s ! i
               = conversationHistory s ! (length (conversationHistory s) - 20 + i)))
   \<and> (\<exists>evs. trace (snd (handleStreamingResponse fr s))
               = trace s @ Fetch (buildRequest s) # evs)"
proof -
  have a: "get_property (body (buildRequest s)) (str ''messages'')
       = Some (JArray (map message_json (recentHistory s)))"
    by (simp add: buildRequest_def requestBody_def str_def)
  have b: "length (recentHistory s) \<le> 20"
    by (simp add: recentHistory_def)
  have c: "\<exists>older. conversationHistory s = older @ recentHistory s"
    unfolding recentHistory_def by (metis append_take_drop_id)
  have d: "20 \<le> length (conversationHistory s) \<longrightarrow>
        length (recentHistory s) = 20
        \<and> (\<forall>i<20. recentHistory s ! i
               = conversationHistory s ! (length (conversationHistory s) - 20 + i))"
    by (simp add: recentHistory_def)
  show ?thesis
    using a b c d hSR_trace_fetch[of fr s] by blast
qed

theorem history_window_witness:
  "20 \<le> length (conversationHistory (page (numbered 21) []))
   \<and> length (recentHistory (page (numbered 21) [])) = 20
   \<and> recentHistory (page (numbered 21) []) ! 0 = user_message (str ''1'')
   \<and> recentHistory (page (numbered 21) []) ! 19 = user_message (str ''20'')"
proof -
  have l: "conversationHistory (page (numbered 21) []) = numbered 21"
    "length (numbered 21) = 21"
    by (simp_all add: page_def numbered_def)
  have n: "numbered 21 ! Suc 0 = user_message (str ''1'')"
    "numbered 21 ! 20 = user_message (str ''20'')"
    by (simp_all add: numbered_def dec.simps str_def)
  show ?thesis
    using history_window[of "page (numbered 21) []" Rejected]
    by (simp add: l n)
qed

section \<open>The request body\<close>

text \<open>
  Claim C8 fails as stated.  The window is sent as it is stored, and an assistant entry is
  stored with its model: in the second request of a conversation the assistant entry
  carries a \<open>model\<close> member (the empty string when no record named a model).
\<close>

theorem request_body_counterexample:
  "body (buildRequest
      (page [user_message (str ''hi''), assistant_message (str ''Hello'') (JString [])] []))
   = JObject
       [(str ''model'', JString (str ''cheapest'')),
        (str ''messages'',
         JArray
           [JObject [(str ''role'', JString (str ''user'')),
                     (str ''content'', JString (str ''hi''))],
            JObject [(str ''role'', JString (str ''assistant'')),
                     (str ''content'', JString (str ''Hello'')),
                     (str ''model'', JString [])]])]"
  by (simp add: buildRequest_def requestBody_def recentHistory_def message_json_def page_def
        user_message_def assistant_message_def)

text \<open>
  Claim C8, amended.  The body is the object with the members \<open>model\<close>, which is
  \<open>cheapest\<close>, and \<open>messages\<close>, the entries of the window.  Each entry carries its role
  and its content, and its model exactly when the stored entry has one; it has no other
  member.  A user entry has none, an assistant entry appended by an attempt has one.
\<close>

theorem request_body_fields:
  "body (buildRequest s)
       = JObject [(str ''model'', JString (str ''cheapest'')),
                  (str ''messages'', JArray (map message_json (recentHistory s)))]
   \<and> keys (message_json m)
       = [str ''role'', str ''content''] @ (case model m of None \<Rightarrow> [] | Some v \<Rightarrow> [str ''model''])
   \<and> get_property (message_json m) (str ''role'') = Some (JString (role m))
   \<and> get_property (message_json m) (str ''content'') = Some (JString (content m))
   \<and> get_property (message_json m) (str ''model'') = model m
   \<and> keys (message_json (user_message c)) = [str ''role'', str ''content'']
   \<and> keys (message_json (assistant_message c v)) = [str ''role'', str ''content'', str ''model'']"
  by (simp add: buildRequest_def requestBody_def message_json_def keys_def user_message_def
        assistant_message_def split: option.splits)
     (simp add: str_def)

section \<open>A stream without text\<close>

text \<open>
  Claim C9.  When the response is ok and its stream is read to the end with the
  accumulated assistant text still empty, the retry loop returns \<open>true\<close> at that attempt,
  and the state it leaves differs from the state it found in the trace only: the
  conversation and the stored conversation are the ones it found, so no assistant entry
  is appended.
\<close>

theorem empty_completion:
  assumes "net n = Resolved resp" and "ok resp" and "response_body resp = Some reads"
    and "readStreamChunk reads (new_reader, log (Fetch (buildRequest s)) s) = (Return (), r, s2)"
    and "assistantMessage r = []"
  shows "handleStreamingResponseWithRetry net n s = (Return True, s2)
     \<and> conversationHistory s2 = conversationHistory s
     \<and> localStorage s2 = localStorage s
     \<and> only_logs s s2"
proof -
  have nf: "\<not> server_failure (net n)"
    using assms by (simp add: server_failure_def)
  have "only_logs (log (Fetch (buildRequest s)) s) s2"
    using assms(4) by (rule readStreamChunk_frame)
  then have ol: "only_logs s s2"
    using only_logs_trans[of s "log (Fetch (buildRequest s)) s" s2] by simp
  then have "conversationHistory s2 = conversationHistory s" "localStorage s2 = localStorage s"
    by (simp_all add: only_logs_fields)
  then show ?thesis
    using retry_settled[of net n s] nf hSR_stream[OF assms(2,3,4)] assms(1,5) ol by simp
qed

theorem empty_completion_witness:
  "readStreamChunk [Value (lines_text [line_Credits])]
       (new_reader, log (Fetch (buildRequest (page [user_message (str ''hi'')] [])))
          (page [user_message (str ''hi'')] []))
     = (Return (), new_reader,
        updateStatus (str ''Credits used: 3'')
          (log (Fetch (buildRequest (page [user_message (str ''hi'')] [])))
             (page [user_message (str ''hi'')] [])))
   \<and> handleStreamingResponseWithRetry
       (always (Resolved (Response True None (Some [Value (lines_text [line_Credits])])))) 1
       (page [user_message (str ''hi'')] [])
     = (Return True,
        updateStatus (str ''Credits used: 3'')
          (log (Fetch (buildRequest (page [user_message (str ''hi'')] [])))
             (page [user_message (str ''hi'')] [])))
   \<and> conversationHistory
        (updateStatus (str ''Credits used: 3'')
          (log (Fetch (buildRequest (page [user_message (str ''hi'')] [])))
             (page [user_message (str ''hi'')] []))) = [user_message (str ''hi'')]"
proof -
  let ?P = "page [user_message (str ''hi'')] []"
  let ?s1 = "log (Fetch (buildRequest ?P)) ?P"
  have rd: "readStreamChunk [Value (lines_text [line_Credits])] (new_reader, ?s1)
     = (Return (), new_reader, updateStatus (str ''Credits used: 3'') ?s1)"
    by (simp add: split_lines_text lines_no_newline process_line_Credits)
  have e: "assistantMessage new_reader = []"
    by (simp add: new_reader_def)
  show ?thesis
    using empty_completion[of
        "always (Resolved (Response True None (Some [Value (lines_text [line_Credits])])))" 1
        "Response True None (Some [Value (lines_text [line_Credits])])"
        "[Value (lines_text [line_Credits])]" ?P new_reader
        "updateStatus (str ''Credits used: 3'') ?s1"] rd e
    by (simp add: always_def) (simp add: page_def)
qed

section \<open>A response without a body\<close>

text \<open>
  Claim C10.  For a response that is ok, the attempt throws a \<open>TypeError\<close> exactly when
  the response has no body: the reader is \<open>undefined\<close> and the first read dereferences
  it.  The error is not a failed attempt: the retry loop passes it on at once, and so does
  \<open>sendWrapper\<close> after its \<open>finally\<close> block.
\<close>

theorem absent_body_throws:
  assumes "ok resp" and "net n = Resolved resp"
  shows "(fst (handleStreamingResponse (Resolved resp) s) = Throw TypeError
            \<longleftrightarrow> response_body resp = None)
     \<and> (response_body resp = None \<longrightarrow>
          handleStreamingResponseWithRetry net n s
            = (Throw TypeError, log (Fetch (buildRequest s)) s))
     \<and> (response_body resp = None \<and> n = 1 \<longrightarrow>
          sendWrapper net s
            = (Throw TypeError, enable_input (log (Fetch (buildRequest s)) (disable_input s))))"
proof -
  have nf: "\<not> server_failure (net n)"
    using assms by (simp add: server_failure_def)
  show ?thesis
  proof (cases "response_body resp")
    case None
    have r: "handleStreamingResponseWithRetry net n t
        = (Throw TypeError, log (Fetch (buildRequest t)) t)" for t
      using assms retry_settled[of net n t] nf hSR_no_body[OF assms(1) None, of t] by simp
    have w: "sendWrapper net s
        = (Throw TypeError, enable_input (log (Fetch (buildRequest s)) (disable_input s)))"
      if "n = 1"
      using sendWrapper_throw[of net s TypeError "log (Fetch (buildRequest s)) (disable_input s)"]
        r[of "disable_input s"] that
      by (simp only: buildRequest_disable_input)
    show ?thesis
      using None r[of s] hSR_no_body[OF assms(1) None, of s] w by simp
  next
    case (Some reads)
    obtain c r s2 where rd:
      "readStreamChunk reads (new_reader, log (Fetch (buildRequest s)) s) = (c, r, s2)"
      by (metis prod_cases3)
    have "fst (handleStreamingResponse (Resolved resp) s) \<noteq> Throw TypeError"
    proof (cases c)
      case (Throw err)
      with hSR_stream_throws[OF assms(1) Some, of s err r s2] rd show ?thesis by simp
    next
      case (Return u)
      with hSR_stream[OF assms(1) Some, of s r s2] rd show ?thesis by simp
    qed
    with Some show ?thesis by simp
  qed
qed

theorem absent_body_throws_witness:
  "ok (Response True None None)
   \<and> handleStreamingResponseWithRetry (always (Resolved (Response True None None))) 1
        (page [user_message (str ''hi'')] [])
      = (Throw TypeError,
         log (Fetch (buildRequest (page [user_message (str ''hi'')] [])))
           (page [user_message (str ''hi'')] []))
   \<and> fst (sendWrapper (always (Resolved (Response True None None)))
        (page [user_message (str ''hi'')] [])) = Throw TypeError
   \<and> conversationHistory (snd (sendWrapper (always (Resolved (Response True None None)))
        (page [user_message (str ''hi'')] []))) = [user_message (str ''hi'')]"
  using absent_body_throws[of "Response True None None"
      "always (Resolved (Response True None None))" 1 "page [user_message (str ''hi'')] []"]
  by (simp add: always_def) (simp add: page_def)

section \<open>Network failures\<close>

text \<open>
  Claim C6 at a rejected request and at a rejected read.  The exception leaves
  \<open>sendMessage\<close>: one request has been sent, no wait and no retry follows, no status notice
  is issued, and the user entry stays in the conversation and in the store.
\<close>

theorem network_failure_escapes:
  "fst (sendMessage (always Rejected) (page [] (str ''hi''))) = Throw FetchRejected
   \<and> conversationHistory (snd (sendMessage (always Rejected) (page [] (str ''hi''))))
       = [user_message (str ''hi'')]
   \<and> localStorage (snd (sendMessage (always Rejected) (page [] (str ''hi''))))
       = Some [user_message (str ''hi'')]
   \<and> trace (snd (sendMessage (always Rejected) (page [] (str ''hi''))))
       = [AddMessage (str ''user'') (str ''hi'') None,
          ShowTypingIndicator True,
          Fetch (buildRequest (page [user_message (str ''hi'')] [])),
          ShowTypingIndicator False]
   \<and> fst (sendMessage (always (Resolved (Response True None (Some [ReadRejects]))))
          (page [] (str ''hi''))) = Throw ReadRejected
   \<and> conversationHistory
        (snd (sendMessage (always (Resolved (Response True None (Some [ReadRejects]))))
          (page [] (str ''hi'')))) = [user_message (str ''hi'')]"
proof -
  let ?P = "page [] (str ''hi'')"
  have t: "trim (messageInput_value ?P) = str ''hi''"
    by (simp add: page_def trim_def js_whitespace_def str_def)
  have nb: "trim (messageInput_value ?P) \<noteq> []"
    by (simp only: t, simp add: str_def)
  have ap: "appended ?P =
      (page [user_message (str ''hi'')] (str ''hi''))
        \<lparr>trace := [AddMessage (str ''user'') (str ''hi'') None]\<rparr>"
    by (simp add: appended_def t saveConversationToStorage_def) (simp add: page_def log_def)
  have br: "buildRequest (appended ?P) = buildRequest (page [user_message (str ''hi'')] [])"
    by (simp add: ap) (simp add: buildRequest_def requestBody_def recentHistory_def page_def)
  have nf1: "\<not> server_failure (always Rejected 1)"
    and nf2: "\<not> server_failure (always (Resolved (Response True None (Some [ReadRejects]))) 1)"
    by (simp_all add: always_def server_failure_def)
  have r1: "handleStreamingResponseWithRetry (always Rejected) 1 (disable_input (appended ?P))
      = (Throw FetchRejected,
         log (Fetch (buildRequest (page [user_message (str ''hi'')] [])))
           (disable_input (appended ?P)))"
    using retry_settled[of "always Rejected" 1 "disable_input (appended ?P)"] nf1
    by (simp add: always_def hSR_rejected br)
  have r2: "handleStreamingResponseWithRetry
        (always (Resolved (Response True None (Some [ReadRejects])))) 1
        (disable_input (appended ?P))
      = (Throw ReadRejected,
         log (Fetch (buildRequest (page [user_message (str ''hi'')] [])))
           (disable_input (appended ?P)))"
    using retry_settled[of "always (Resolved (Response True None (Some [ReadRejects])))" 1
        "disable_input (appended ?P)"] nf2
    by (simp add: always_def handleStreamingResponse_def Let_def br)
  have m1: "sendMessage (always Rejected) ?P
      = (Throw FetchRejected,
         enable_input (log (Fetch (buildRequest (page [user_message (str ''hi'')] [])))
           (disable_input (appended ?P))))"
    by (simp only: sendMessage_nonblank[OF nb] sendWrapper_throw[OF r1])
  have m2: "sendMessage (always (Resolved (Response True None (Some [ReadRejects])))) ?P
      = (Throw ReadRejected,
         enable_input (log (Fetch (buildRequest (page [user_message (str ''hi'')] [])))
           (disable_input (appended ?P))))"
    by (simp only: sendMessage_nonblank[OF nb] sendWrapper_throw[OF r2])
  show ?thesis
    unfolding m1 m2 by (simp add: ap) (simp add: page_def)
qed

end
